theory Spec2Isabelle
  imports Main "HOL-Library.Multiset" "HOL-Library.Product_Lexorder"
begin

section \<open>Data model\<close>

text \<open>
  A service is the dictionary built by \<^verbatim>\<open>extrair_servicos\<close> (leitor_grafo.py): the keys
  \<^verbatim>\<open>id_servico\<close>, \<^verbatim>\<open>tipo\<close>, \<^verbatim>\<open>origem\<close>, \<^verbatim>\<open>destino\<close>, \<^verbatim>\<open>demanda\<close>, \<^verbatim>\<open>custo_servico\<close>.
  All numbers are Python integers read with \<^verbatim>\<open>int(...)\<close>.
\<close>

datatype tipo = Vertice | Aresta | Arco

record servico =
  id_servico :: int
  tipo :: tipo
  origem :: nat
  destino :: nat
  demanda :: int
  custo_servico :: int

type_synonym rota = "servico list"

text \<open>
  The distance matrix (\<^verbatim>\<open>criar_matriz_distancias\<close>) is a dictionary of dictionaries with
  one entry for every pair of vertices of the graph; every vertex named by a service is a
  vertex of the graph. It is read only, through \<^verbatim>\<open>matriz_distancias[u][v]\<close>, and is
  modelled as the lookup function on vertices, with integer entries: the entries are sums
  of the integer edge costs for every pair of connected vertices, and the graph is taken to
  be connected from every vertex to every other (an unreachable pair would hold the float
  infinity, and a vertex that is not in the graph would raise KeyError).
\<close>

type_synonym matriz = "nat \<Rightarrow> nat \<Rightarrow> int"

datatype erro = IndexError | ValueError | Excecao

section \<open>Route cost (etapa3/algoritmo\_construtivo.py, \<^verbatim>\<open>rota_custo\<close>)\<close>

definition rota_custo :: "rota \<Rightarrow> matriz \<Rightarrow> nat \<Rightarrow> int" where
  "rota_custo rota matriz_distancias deposito =
     (if rota = [] then 0
      else
        let custo_serv = sum_list (map custo_servico rota);
            destinos = map destino rota;
            custo_transporte0 = matriz_distancias deposito (destinos ! 0);
            custo_transporte1 =
              foldl (\<lambda>c i. c + matriz_distancias (destinos ! i) (destinos ! (i + 1)))
                custo_transporte0 [0..<length destinos - 1];
            custo_transporte2 = custo_transporte1 + matriz_distancias (last destinos) deposito
        in custo_serv + custo_transporte2)"

text \<open>
  The route cost as the specification words it: the transport legs run from the depot to
  the first service's origin, from each service's destination to the next service's
  origin, and from the last service's destination to the depot.
\<close>

definition rota_custo_spec :: "rota \<Rightarrow> matriz \<Rightarrow> nat \<Rightarrow> int" where
  "rota_custo_spec rota matriz_distancias deposito =
     sum_list (map custo_servico rota)
     + matriz_distancias deposito (origem (hd rota))
     + (\<Sum>i<length rota - 1. matriz_distancias (destino (rota ! i)) (origem (rota ! (i + 1))))
     + matriz_distancias (destino (last rota)) deposito"

section \<open>Intra-route reordering (\<^verbatim>\<open>two_opt\<close>)\<close>

text \<open>\<^verbatim>\<open>melhor_rota[:i] + melhor_rota[i:j][::-1] + melhor_rota[j:]\<close> for \<open>i \<le> j\<close>.\<close>

definition inverte :: "rota \<Rightarrow> nat \<Rightarrow> nat \<Rightarrow> rota" where
  "inverte melhor_rota i j =
     take i melhor_rota @ rev (take (j - i) (drop i melhor_rota)) @ drop j melhor_rota"

text \<open>The body of the inner loop; the state is the pair \<^verbatim>\<open>(melhor_rota, melhorou)\<close>.\<close>

definition two_opt_teste :: "matriz \<Rightarrow> nat \<Rightarrow> nat \<Rightarrow> rota \<times> bool \<Rightarrow> nat \<Rightarrow> rota \<times> bool" where
  "two_opt_teste matriz_distancias deposito i st j =
     (let melhor_rota = fst st;
          nova_rota = inverte melhor_rota i j
      in if rota_custo nova_rota matriz_distancias deposito
              < rota_custo melhor_rota matriz_distancias deposito
         then (nova_rota, True) else st)"

text \<open>\<^verbatim>\<open>for j in range(i + 1, len(melhor_rota))\<close>\<close>

definition two_opt_interno :: "matriz \<Rightarrow> nat \<Rightarrow> rota \<times> bool \<Rightarrow> nat \<Rightarrow> rota \<times> bool" where
  "two_opt_interno matriz_distancias deposito st i =
     foldl (two_opt_teste matriz_distancias deposito i) st [i + 1..<length (fst st)]"

text \<open>\<^verbatim>\<open>melhorou = False; for i in range(1, len(melhor_rota) - 1)\<close>: one full scan.\<close>

definition two_opt_varredura :: "matriz \<Rightarrow> nat \<Rightarrow> rota \<Rightarrow> rota \<times> bool" where
  "two_opt_varredura matriz_distancias deposito melhor_rota =
     foldl (two_opt_interno matriz_distancias deposito) (melhor_rota, False)
       [1..<length melhor_rota - 1]"

text \<open>
  \<^verbatim>\<open>while melhorou: ...; if melhorou: break\<close>. The loop is left by the \<^verbatim>\<open>break\<close> when the
  scan improved the route, and by its condition when the scan did not.
\<close>

function two_opt_laco :: "matriz \<Rightarrow> nat \<Rightarrow> rota \<times> bool \<Rightarrow> rota" where
  "two_opt_laco matriz_distancias deposito (melhor_rota, melhorou) =
     (if melhorou then
        (case two_opt_varredura matriz_distancias deposito melhor_rota of
           (melhor_rota', melhorou') \<Rightarrow>
             if melhorou' then melhor_rota'
             else two_opt_laco matriz_distancias deposito (melhor_rota', melhorou'))
      else melhor_rota)"
  by pat_completeness auto
termination
  by (relation "measure (\<lambda>(m, d, r, b). if b then 1 else 0)") (auto split: prod.splits)


declare two_opt_laco.simps [simp del]

definition two_opt :: "rota \<Rightarrow> matriz \<Rightarrow> nat \<Rightarrow> rota" where
  "two_opt rota matriz_distancias deposito =
     (if length rota < 3 then rota
      else two_opt_laco matriz_distancias deposito (rota, True))"

text \<open>
  What a scan keeps of the route it started from: the first service, and the services as a
  multiset.
\<close>

definition conserva :: "rota \<Rightarrow> rota \<times> bool \<Rightarrow> bool" where
  "conserva r st \<longleftrightarrow> take (Suc 0) (fst st) = take (Suc 0) r \<and> mset (fst st) = mset r"

section \<open>Construction: savings and randomised Clarke-Wright (\<^verbatim>\<open>clarke_wright_grasp\<close>)\<close>

text \<open>
  \<^verbatim>\<open>construir_rotas_iniciais\<close> of etapa3: one singleton route per service and its demand;
  \<^verbatim>\<open>capacidade\<close> is a parameter that the body never reads.
\<close>

definition construir_rotas_iniciais :: "servico list \<Rightarrow> nat \<Rightarrow> matriz \<Rightarrow> int \<Rightarrow> rota list \<times> int list" where
  "construir_rotas_iniciais servicos deposito matriz_distancias capacidade =
     foldl (\<lambda>(rotas, demandas) serv. (rotas @ [[serv]], demandas @ [demanda serv]))
       ([], []) servicos"

text \<open>
  \<^verbatim>\<open>calcular_savings\<close>: the triples \<^verbatim>\<open>(saving, i, j)\<close> for \<open>i < j\<close>, then
  \<^verbatim>\<open>savings.sort(reverse=True)\<close>. The triples are pairwise different, so the descending
  order of Python's tuple comparison is the reverse of the ascending lexicographic order.
\<close>

type_synonym saving = "int \<times> nat \<times> nat"

definition calcular_savings :: "servico list \<Rightarrow> nat \<Rightarrow> matriz \<Rightarrow> saving list" where
  "calcular_savings servicos deposito matriz_distancias =
     (let n = length servicos;
          savings =
            concat (map (\<lambda>i. map (\<lambda>j.
              (matriz_distancias deposito (destino (servicos ! i))
               + matriz_distancias deposito (destino (servicos ! j))
               - matriz_distancias (destino (servicos ! i)) (destino (servicos ! j)), i, j))
              [i + 1..<n]) [0..<n])
      in rev (sort savings))"

text \<open>
  \<^verbatim>\<open>savings_disponiveis[:k]\<close>, for a Python integer \<open>k\<close> (a negative \<open>k\<close> counts from the end).
\<close>

definition fatia_ate :: "'a list \<Rightarrow> int \<Rightarrow> 'a list" where
  "fatia_ate xs k = (if 0 \<le> k then take (nat k) xs else take (length xs - nat (- k)) xs)"

text \<open>
  The generator of Python's \<^verbatim>\<open>random\<close> module is global state: the one generator of the
  process, which every caller of \<^verbatim>\<open>random.seed\<close> and \<^verbatim>\<open>random.choice\<close> reads and writes.
  It is passed explicitly: a state of type \<open>'g\<close>, and the draw behind \<^verbatim>\<open>random.choice\<close>, which for a sequence of length
  \<open>n\<close> gives a number and the next state. \<^verbatim>\<open>random.choice(seq)\<close> is \<^verbatim>\<open>seq[randbelow(len(seq))]\<close>,
  and raises IndexError on an empty sequence; the index is the drawn number modulo \<open>n\<close>, so
  every generator of indices below \<open>n\<close> is covered.
\<close>

type_synonym 'g sorteio = "'g \<Rightarrow> nat \<Rightarrow> nat \<times> 'g"

definition random_choice :: "'g sorteio \<Rightarrow> 'g \<Rightarrow> 'a list \<Rightarrow> erro + ('a \<times> 'g)" where
  "random_choice sorteio g xs =
     (if xs = [] then Inl IndexError
      else
        let sorteado = sorteio g (length xs)
        in Inr (xs ! (fst sorteado mod length xs), snd sorteado))"

text \<open>
  The search for the routes of a saving (lines 125-130): the last route whose first service
  is service \<open>i\<close>, and the last route whose last service is service \<open>j\<close>.
\<close>

definition procura_rotas :: "rota list \<Rightarrow> int \<Rightarrow> int \<Rightarrow> nat option \<times> nat option" where
  "procura_rotas rotas id_i id_j =
     foldl (\<lambda>(idx_i, idx_j) (idx, rota).
              (if rota \<noteq> [] \<and> id_servico (rota ! 0) = id_i then Some idx else idx_i,
               if rota \<noteq> [] \<and> id_servico (last rota) = id_j then Some idx else idx_j))
       (None, None) (enumerate 0 rotas)"

text \<open>
  The merge (lines 133-141), when both routes were found, differ, and the recorded demands
  fit the capacity. Reading \<^verbatim>\<open>demandas\<close> out of range raises IndexError.
\<close>

definition funde :: "rota list \<Rightarrow> int list \<Rightarrow> int \<Rightarrow> nat option \<times> nat option \<Rightarrow> erro + rota list \<times> int list" where
  "funde rotas demandas capacidade idxs =
     (case idxs of
        (Some idx_i, Some idx_j) \<Rightarrow>
          if idx_i \<noteq> idx_j then
            if idx_i < length demandas \<and> idx_j < length demandas then
              if demandas ! idx_i + demandas ! idx_j \<le> capacidade then
                Inr ((rotas[idx_i := rotas ! idx_i @ rotas ! idx_j])[idx_j := []],
                     (demandas[idx_i := demandas ! idx_i + demandas ! idx_j])[idx_j := 0])
              else Inr (rotas, demandas)
            else Inl IndexError
          else Inr (rotas, demandas)
      | _ \<Rightarrow> Inr (rotas, demandas))"

text \<open>
  The loop \<^verbatim>\<open>while savings_disponiveis\<close> (lines 118-144): every round removes the chosen
  saving, so the list gets shorter. The state is the routes, the demands, the savings still
  available and the generator. \<^verbatim>\<open>servicos[i]\<close> out of range raises IndexError;
  \<^verbatim>\<open>clarke_wright_grasp\<close> runs the loop on the savings of the same services, whose indices
  are positions of \<^verbatim>\<open>servicos\<close>, and on demands as long as the routes, so there the two
  IndexError branches of the loop are never taken.
\<close>

lemma random_choice_mem: "random_choice sorteio g xs = Inr (x, g') \<Longrightarrow> x \<in> set xs"
  by (auto simp: random_choice_def Let_def split: if_splits)

lemma set_fatia_ate: "set (fatia_ate xs k) \<subseteq> set xs"
  by (auto simp: fatia_ate_def dest: in_set_takeD)

function cw_laco ::
  "'g sorteio \<Rightarrow> servico list \<Rightarrow> int \<Rightarrow> int \<Rightarrow> rota list \<times> int list \<times> saving list \<times> 'g
   \<Rightarrow> erro + rota list \<times> int list \<times> 'g" where
  "cw_laco sorteio servicos capacidade k (rotas, demandas, savings_disponiveis, g) =
     (if savings_disponiveis = [] then Inr (rotas, demandas, g)
      else
        case random_choice sorteio g (fatia_ate savings_disponiveis k) of
          Inl e \<Rightarrow> Inl e
        | Inr (saving_escolhido, g') \<Rightarrow>
            (case saving_escolhido of (s, i, j) \<Rightarrow>
               if i < length servicos \<and> j < length servicos then
                 (case funde rotas demandas capacidade
                         (procura_rotas rotas (id_servico (servicos ! i)) (id_servico (servicos ! j))) of
                    Inl e \<Rightarrow> Inl e
                  | Inr (rotas', demandas') \<Rightarrow>
                      cw_laco sorteio servicos capacidade k
                        (rotas', demandas', remove1 saving_escolhido savings_disponiveis, g'))
               else Inl IndexError))"
  by pat_completeness auto
termination
proof (relation "measure (\<lambda>(s, sv, c, k, r, d, disp, g). length disp)", goal_cases)
  case 1
  show ?case by simp
next
  case (2 sorteio servicos capacidade k rotas demandas disp g x2 sav g' s x2a i j x2c rotas' demandas')
  then have "sav \<in> set disp"
    using random_choice_mem set_fatia_ate by (metis subsetD)
  then have "length (remove1 sav disp) < length disp"
    using length_pos_if_in_set [of sav disp] by (simp add: length_remove1)
  then show ?case
    using 2 by simp
qed

declare cw_laco.simps [simp del]

text \<open>
  The pruning at the end of \<^verbatim>\<open>clarke_wright_grasp\<close> (lines 147-148) and of \<^verbatim>\<open>relocate\<close>
  (lines 205-206): \<^verbatim>\<open>rotas = [r for r in rotas if r]\<close>, and then
  \<^verbatim>\<open>demandas = [d for r, d in zip(rotas, demandas) if r]\<close>, which pairs the routes already
  filtered with the demand list not yet filtered.
\<close>

definition poda_rotas :: "rota list \<Rightarrow> int list \<Rightarrow> rota list \<times> int list" where
  "poda_rotas rotas demandas =
     (let rotas' = filter (\<lambda>r. r \<noteq> []) rotas;
          demandas' = map snd (filter (\<lambda>(r, d). r \<noteq> []) (zip rotas' demandas))
      in (rotas', demandas'))"

text \<open>
  \<^verbatim>\<open>clarke_wright_grasp\<close>: initial routes, savings, the merging loop, the pruning, and the
  final check that the set of service ids is the expected one.
\<close>

definition clarke_wright_grasp ::
  "'g sorteio \<Rightarrow> servico list \<Rightarrow> nat \<Rightarrow> matriz \<Rightarrow> int \<Rightarrow> int \<Rightarrow> 'g
   \<Rightarrow> erro + rota list \<times> int list \<times> 'g" where
  "clarke_wright_grasp sorteio servicos deposito matriz_distancias capacidade k g =
     (case construir_rotas_iniciais servicos deposito matriz_distancias capacidade of
        (rotas, demandas) \<Rightarrow>
          let savings = calcular_savings servicos deposito matriz_distancias
          in case cw_laco sorteio servicos capacidade k (rotas, demandas, savings, g) of
               Inl e \<Rightarrow> Inl e
             | Inr (rotas1, demandas1, g') \<Rightarrow>
                 (case poda_rotas rotas1 demandas1 of
                    (rotas2, demandas2) \<Rightarrow>
                      let ids_esperados = set (map id_servico servicos);
                          ids_nas_rotas = set (map id_servico (concat rotas2))
                      in if ids_esperados \<noteq> ids_nas_rotas then Inl Excecao
                         else Inr (rotas2, demandas2, g')))"

text \<open>
  \<^verbatim>\<open>construir_rotas_iniciais\<close> of etapa2 (etapa2/algoritmo\_construtivo.py, lines 1-10): the same
  loop with the check \<^verbatim>\<open>if demanda > capacidade: raise ValueError\<close> before each route is added.
\<close>

fun construir_rotas_iniciais_etapa2_laco ::
  "int \<Rightarrow> servico list \<Rightarrow> rota list \<times> int list \<Rightarrow> erro + rota list \<times> int list" where
  "construir_rotas_iniciais_etapa2_laco capacidade [] (rotas, demandas) = Inr (rotas, demandas)"
| "construir_rotas_iniciais_etapa2_laco capacidade (serv # resto) (rotas, demandas) =
     (if demanda serv > capacidade then Inl ValueError
      else construir_rotas_iniciais_etapa2_laco capacidade resto
             (rotas @ [[serv]], demandas @ [demanda serv]))"

definition construir_rotas_iniciais_etapa2 ::
  "servico list \<Rightarrow> nat \<Rightarrow> matriz \<Rightarrow> int \<Rightarrow> erro + rota list \<times> int list" where
  "construir_rotas_iniciais_etapa2 servicos deposito matriz_distancias capacidade =
     construir_rotas_iniciais_etapa2_laco capacidade servicos ([], [])"


section \<open>First-improvement scans\<close>

text \<open>
  The local searches scan nested \<^verbatim>\<open>for\<close> loops and leave all of them at the first accepted
  move (\<^verbatim>\<open>melhorou = True; break\<close>, then \<^verbatim>\<open>if melhorou: break\<close> in every enclosing loop). The
  result of a scan is the first move found, nothing, or the exception raised on the way.
\<close>

datatype 'a busca = Nada | Achou 'a | Falha erro

fun primeiro :: "('a \<Rightarrow> 'r busca) \<Rightarrow> 'a list \<Rightarrow> 'r busca" where
  "primeiro f [] = Nada"
| "primeiro f (x # xs) =
     (case f x of Nada \<Rightarrow> primeiro f xs | Achou r \<Rightarrow> Achou r | Falha e \<Rightarrow> Falha e)"


section \<open>Total cost and the termination measure of the local searches\<close>

text \<open>
  \<^verbatim>\<open>sum(rota_custo(rota, ...) for rota in rotas)\<close>. Every accepted move keeps the services
  and lowers this total; there are finitely many ways of splitting the same services into
  non-empty routes, so the distance of the total to the least total among them is a measure
  that decreases.
\<close>

text \<open>
  The total cost of a solution, line 331.
\<close>

definition custo_solucao :: "matriz \<Rightarrow> nat \<Rightarrow> rota list \<Rightarrow> int" where
  "custo_solucao matriz_distancias deposito rotas =
     sum_list (map (\<lambda>rota. rota_custo rota matriz_distancias deposito) rotas)"

text \<open>
  The ways of splitting the services \<open>X\<close> into non-empty routes, and the distance of a
  solution's total cost to the least total cost among them. Both are used only to show that
  the loops of the local searches end.
\<close>

definition classe :: "servico multiset \<Rightarrow> rota list set" where
  "classe X = {t. mset (concat t) = X \<and> [] \<notin> set t}"

definition folga :: "matriz \<Rightarrow> nat \<Rightarrow> rota list \<Rightarrow> nat" where
  "folga M dep rotas =
     nat (custo_solucao M dep rotas - Min (custo_solucao M dep ` classe (mset (concat rotas))))"

lemma length_le_concat: "[] \<notin> set t \<Longrightarrow> length t \<le> length (concat t)"
proof (induction t)
  case Nil
  then show ?case by simp
next
  case (Cons r t)
  then have "r \<noteq> []" "length t \<le> length (concat t)" by auto
  then show ?case by (cases r) auto
qed

lemma finite_classe: "finite (classe X)"
proof -
  let ?A = "{r. set r \<subseteq> set_mset X \<and> length r \<le> size X}"
  have fA: "finite ?A" by (rule finite_lists_length_le) simp
  have "classe X \<subseteq> {t. set t \<subseteq> ?A \<and> length t \<le> size X}"
  proof
    fix t assume "t \<in> classe X"
    then have c: "mset (concat t) = X" and ne: "[] \<notin> set t" by (auto simp: classe_def)
    have "length t \<le> size X" using length_le_concat [OF ne] c by (metis size_mset)
    moreover have "r \<in> ?A" if "r \<in> set t" for r
    proof -
      have "set r \<subseteq> set (concat t)" using that by auto
      moreover have "length r \<le> length (concat t)"
        using that by (induction t) auto
      ultimately show ?thesis using c by (metis (mono_tags, lifting) mem_Collect_eq set_mset_mset size_mset)
    qed
    ultimately show "t \<in> {t. set t \<subseteq> ?A \<and> length t \<le> size X}" by auto
  qed
  moreover have "finite {t. set t \<subseteq> ?A \<and> length t \<le> size X}"
    by (rule finite_lists_length_le) (rule fA)
  ultimately show ?thesis by (rule finite_subset)
qed

lemma custo_solucao_filter:
  "custo_solucao M dep (filter (\<lambda>r. r \<noteq> []) rotas) = custo_solucao M dep rotas"
  by (induction rotas) (auto simp: custo_solucao_def rota_custo_def)

lemma concat_filter_vazias: "concat (filter (\<lambda>r. r \<noteq> []) rotas) = concat rotas"
  by (induction rotas) auto

lemma filter_in_classe: "filter (\<lambda>r. r \<noteq> []) rotas \<in> classe (mset (concat rotas))"
  by (simp add: classe_def concat_filter_vazias)

lemma Min_classe_le: "Min (custo_solucao M dep ` classe (mset (concat rotas))) \<le> custo_solucao M dep rotas"
proof -
  have "custo_solucao M dep (filter (\<lambda>r. r \<noteq> []) rotas) \<in> custo_solucao M dep ` classe (mset (concat rotas))"
    using filter_in_classe by blast
  then have "Min (custo_solucao M dep ` classe (mset (concat rotas))) \<le> custo_solucao M dep (filter (\<lambda>r. r \<noteq> []) rotas)"
    using finite_classe by (intro Min_le) auto
  then show ?thesis by (simp add: custo_solucao_filter)
qed

lemma folga_menor:
  assumes "mset (concat rotas') = mset (concat rotas)"
    and "custo_solucao M dep rotas' < custo_solucao M dep rotas"
  shows "folga M dep rotas' < folga M dep rotas"
  using assms Min_classe_le [of M dep rotas'] by (simp add: folga_def)


section \<open>Service relocation (\<^verbatim>\<open>relocate\<close>)\<close>

text \<open>
  The body of the innermost loop of \<^verbatim>\<open>relocate\<close> (lines 186-200), for the service at position
  \<open>idx\<close> of route \<open>i\<close> and the target route \<open>j\<close>.
\<close>

definition relocate_teste ::
  "rota list \<Rightarrow> int list \<Rightarrow> int \<Rightarrow> matriz \<Rightarrow> nat \<Rightarrow> nat \<Rightarrow> nat \<Rightarrow> nat \<Rightarrow> (rota list \<times> int list) busca" where
  "relocate_teste rotas demandas capacidade matriz_distancias deposito i j idx =
     (let serv = rotas ! i ! idx in
      if j < length demandas then
        if demandas ! j + demanda serv \<le> capacidade then
          let nova_rota_i = take idx (rotas ! i) @ drop (idx + 1) (rotas ! i);
              nova_rota_j = rotas ! j @ [serv]
          in if nova_rota_i = [] then Nada
             else
               let custo_antigo = rota_custo (rotas ! i) matriz_distancias deposito
                                  + rota_custo (rotas ! j) matriz_distancias deposito;
                   custo_novo = rota_custo nova_rota_i matriz_distancias deposito
                                + rota_custo nova_rota_j matriz_distancias deposito
               in if custo_novo < custo_antigo then
                    if i < length demandas then
                      let rotas' = (rotas[i := nova_rota_i])[j := nova_rota_j];
                          demandas1 = demandas[i := demandas ! i - demanda serv];
                          demandas2 = demandas1[j := demandas1 ! j + demanda serv]
                      in Achou (rotas', demandas2)
                    else Falha IndexError
                  else Nada
        else Nada
      else Falha IndexError)"

text \<open>
  One scan of \<^verbatim>\<open>relocate\<close> (lines 182-204): the ordered pairs of routes \<open>i\<close>, \<open>j\<close> with
  \<open>i \<noteq> j\<close> and route \<open>i\<close> not empty, and every position of route \<open>i\<close>.
\<close>

definition relocate_varredura ::
  "rota list \<Rightarrow> int list \<Rightarrow> int \<Rightarrow> matriz \<Rightarrow> nat \<Rightarrow> (rota list \<times> int list) busca" where
  "relocate_varredura rotas demandas capacidade matriz_distancias deposito =
     primeiro (\<lambda>i.
       primeiro (\<lambda>j.
         if i = j \<or> rotas ! i = [] then Nada
         else primeiro (relocate_teste rotas demandas capacidade matriz_distancias deposito i j)
                [0..<length (rotas ! i)])
         [0..<length rotas])
       [0..<length rotas]"

lemma primeiro_Achou:
  "primeiro f xs = Achou r \<Longrightarrow> \<exists>x\<in>set xs. f x = Achou r"
  by (induction xs) (auto split: busca.splits)

lemma sum_list_map_update:
  fixes f :: "'a \<Rightarrow> 'b::comm_monoid_add"
  shows "i < length xs \<Longrightarrow> sum_list (map f (xs[i := a])) + f (xs ! i) = sum_list (map f xs) + f a"
proof (induction xs arbitrary: i)
  case Nil
  then show ?case by simp
next
  case (Cons x xs)
  show ?case
  proof (cases i)
    case 0
    then show ?thesis by (simp add: ac_simps)
  next
    case (Suc k)
    with Cons have "sum_list (map f (xs[k := a])) + f (xs ! k) = sum_list (map f xs) + f a" by simp
    then have "f x + (sum_list (map f (xs[k := a])) + f (xs ! k)) = f x + (sum_list (map f xs) + f a)"
      by simp
    with Suc show ?thesis by (simp add: ac_simps)
  qed
qed

lemma sum_list_map_update2:
  fixes f :: "'a \<Rightarrow> 'b::comm_monoid_add"
  assumes "i < length xs" "j < length xs" "i \<noteq> j"
  shows "sum_list (map f ((xs[i := a])[j := b])) + (f (xs ! i) + f (xs ! j))
         = sum_list (map f xs) + (f a + f b)"
proof -
  have 1: "sum_list (map f ((xs[i := a])[j := b])) + f (xs ! j) = sum_list (map f (xs[i := a])) + f b"
    using sum_list_map_update [of j "xs[i := a]" f b] assms by simp
  have 2: "sum_list (map f (xs[i := a])) + f (xs ! i) = sum_list (map f xs) + f a"
    using sum_list_map_update [of i xs f a] assms by simp
  have "sum_list (map f ((xs[i := a])[j := b])) + (f (xs ! i) + f (xs ! j))
        = (sum_list (map f ((xs[i := a])[j := b])) + f (xs ! j)) + f (xs ! i)"
    by (simp add: ac_simps)
  also have "\<dots> = (sum_list (map f (xs[i := a])) + f (xs ! i)) + f b"
    using 1 by (simp add: ac_simps)
  also have "\<dots> = sum_list (map f xs) + (f a + f b)"
    using 2 by (simp add: ac_simps)
  finally show ?thesis .
qed

text \<open>Moving material between two routes: same services overall, lower total cost.\<close>

lemma troca_duas_rotas:
  assumes "i < length rotas" "j < length rotas" "i \<noteq> j"
    and "mset a + mset b = mset (rotas ! i) + mset (rotas ! j)"
    and "rota_custo a M dep + rota_custo b M dep
         < rota_custo (rotas ! i) M dep + rota_custo (rotas ! j) M dep"
  shows "mset (concat ((rotas[i := a])[j := b])) = mset (concat rotas)"
    and "custo_solucao M dep ((rotas[i := a])[j := b]) < custo_solucao M dep rotas"
proof -
  have "mset (concat ((rotas[i := a])[j := b])) + (mset (rotas ! i) + mset (rotas ! j))
        = mset (concat rotas) + (mset a + mset b)"
    unfolding mset_concat using sum_list_map_update2 [OF assms(1-3), of mset a b] .
  then show "mset (concat ((rotas[i := a])[j := b])) = mset (concat rotas)"
    using assms(4) by simp
  have "custo_solucao M dep ((rotas[i := a])[j := b])
          + (rota_custo (rotas ! i) M dep + rota_custo (rotas ! j) M dep)
        = custo_solucao M dep rotas + (rota_custo a M dep + rota_custo b M dep)"
    unfolding custo_solucao_def
    using sum_list_map_update2 [OF assms(1-3), of "\<lambda>r. rota_custo r M dep" a b] .
  then show "custo_solucao M dep ((rotas[i := a])[j := b]) < custo_solucao M dep rotas"
    using assms(5) by linarith
qed

lemma mset_sem_posicao:
  "idx < length r \<Longrightarrow> mset (take idx r @ drop (idx + 1) r) + {#r ! idx#} = mset r"
proof -
  assume "idx < length r"
  then have "r = take idx r @ r ! idx # drop (Suc idx) r" by (rule id_take_nth_drop)
  then have "mset r = mset (take idx r @ r ! idx # drop (Suc idx) r)" by simp
  then show ?thesis by simp
qed

lemma relocate_teste_Achou:
  assumes "relocate_teste rotas demandas cap M dep i j idx = Achou (rotas', demandas')"
    and "i < length rotas" "j < length rotas" "i \<noteq> j" "idx < length (rotas ! i)"
  shows "mset (concat rotas') = mset (concat rotas)"
    and "custo_solucao M dep rotas' < custo_solucao M dep rotas"
    and "length rotas' = length rotas"
proof -
  let ?a = "take idx (rotas ! i) @ drop (idx + 1) (rotas ! i)"
  let ?b = "rotas ! j @ [rotas ! i ! idx]"
  from assms(1) have r: "rotas' = (rotas[i := ?a])[j := ?b]"
    and c: "rota_custo ?a M dep + rota_custo ?b M dep
            < rota_custo (rotas ! i) M dep + rota_custo (rotas ! j) M dep"
    by (auto simp: relocate_teste_def Let_def split: if_splits)
  have m: "mset ?a + mset ?b = mset (rotas ! i) + mset (rotas ! j)"
    using mset_sem_posicao [OF assms(5)] by (simp add: ac_simps)
  show "mset (concat rotas') = mset (concat rotas)"
    unfolding r by (rule troca_duas_rotas(1) [OF assms(2-4) m c])
  show "custo_solucao M dep rotas' < custo_solucao M dep rotas"
    unfolding r by (rule troca_duas_rotas(2) [OF assms(2-4) m c])
  show "length rotas' = length rotas" by (simp add: r)
qed

lemma relocate_varredura_Achou:
  assumes "relocate_varredura rotas demandas cap M dep = Achou (rotas', demandas')"
  shows "mset (concat rotas') = mset (concat rotas)
         \<and> custo_solucao M dep rotas' < custo_solucao M dep rotas
         \<and> length rotas' = length rotas"
proof -
  from primeiro_Achou [OF assms [unfolded relocate_varredura_def]]
  obtain i where i: "i < length rotas"
    and 1: "primeiro (\<lambda>j. if i = j \<or> rotas ! i = [] then Nada
              else primeiro (relocate_teste rotas demandas cap M dep i j) [0..<length (rotas ! i)])
              [0..<length rotas] = Achou (rotas', demandas')"
    by auto
  from primeiro_Achou [OF 1]
  obtain j where j: "j < length rotas" "i \<noteq> j"
    and 2: "primeiro (relocate_teste rotas demandas cap M dep i j) [0..<length (rotas ! i)]
            = Achou (rotas', demandas')"
    by (auto split: if_splits)
  from primeiro_Achou [OF 2]
  obtain idx where idx: "idx < length (rotas ! i)"
    and 3: "relocate_teste rotas demandas cap M dep i j idx = Achou (rotas', demandas')"
    by auto
  show ?thesis
    using relocate_teste_Achou [OF 3 i j idx] by simp
qed

text \<open>
  \<^verbatim>\<open>while melhorou\<close> (lines 179-204): scan, apply the first improving move, scan again; the
  loop ends with the scan that finds none.
\<close>

function relocate_laco ::
  "int \<Rightarrow> matriz \<Rightarrow> nat \<Rightarrow> rota list \<times> int list \<Rightarrow> erro + rota list \<times> int list" where
  "relocate_laco capacidade matriz_distancias deposito (rotas, demandas) =
     (case relocate_varredura rotas demandas capacidade matriz_distancias deposito of
        Nada \<Rightarrow> Inr (rotas, demandas)
      | Achou (rotas', demandas') \<Rightarrow> relocate_laco capacidade matriz_distancias deposito (rotas', demandas')
      | Falha e \<Rightarrow> Inl e)"
  by pat_completeness auto
termination
proof (relation "measure (\<lambda>(c, M, dep, rotas, demandas). folga M dep rotas)", goal_cases)
  case 1
  show ?case by simp
next
  case (2 capacidade M dep rotas demandas x2 rotas' demandas')
  then have "relocate_varredura rotas demandas capacidade M dep = Achou (rotas', demandas')"
    by simp
  from relocate_varredura_Achou [OF this] show ?case
    by (simp add: folga_menor)
qed

declare relocate_laco.simps [simp del]

text \<open>
  \<^verbatim>\<open>relocate\<close>: the loop, then the pruning of lines 205-206.
\<close>

definition relocate ::
  "rota list \<Rightarrow> int list \<Rightarrow> int \<Rightarrow> matriz \<Rightarrow> nat \<Rightarrow> erro + rota list \<times> int list" where
  "relocate rotas demandas capacidade matriz_distancias deposito =
     (case relocate_laco capacidade matriz_distancias deposito (rotas, demandas) of
        Inl e \<Rightarrow> Inl e
      | Inr (rotas', demandas') \<Rightarrow> Inr (poda_rotas rotas' demandas'))"

section \<open>Block relocation (\<^verbatim>\<open>segment_relocate\<close>)\<close>

text \<open>
  The pruning inside the loop of \<^verbatim>\<open>segment_relocate\<close> (lines 436-443): routes and demands
  are filtered together, pair by pair of \<^verbatim>\<open>zip(rotas, demandas)\<close>.
\<close>

definition poda_zip :: "rota list \<Rightarrow> int list \<Rightarrow> rota list \<times> int list" where
  "poda_zip rotas demandas =
     (let pares = filter (\<lambda>(r, d). r \<noteq> []) (zip rotas demandas)
      in (map fst pares, map snd pares))"

text \<open>
  The body of the innermost loop of \<^verbatim>\<open>segment_relocate\<close> (lines 408-428), for the block
  \<^verbatim>\<open>rota_origem[start:end]\<close> of route \<open>i\<close> and the target route \<open>j\<close>. The demands of the two
  routes are computed again from their services when a move is applied.
\<close>

definition segment_teste ::
  "rota list \<Rightarrow> int list \<Rightarrow> int \<Rightarrow> matriz \<Rightarrow> nat \<Rightarrow> nat \<Rightarrow> nat \<Rightarrow> nat \<Rightarrow> nat
   \<Rightarrow> (rota list \<times> int list) busca" where
  "segment_teste rotas demandas capacidade matriz_distancias deposito i j start end =
     (let rota_origem = rotas ! i;
          rota_destino = rotas ! j;
          demanda_destino = demandas ! j;
          n = length rota_origem;
          bloco = take (end - start) (drop start rota_origem)
      in if bloco = [] \<or> length bloco = n then Nada
         else
           let demanda_bloco = sum_list (map demanda bloco)
           in if demanda_destino + demanda_bloco > capacidade then Nada
              else
                let nova_rota_origem = take start rota_origem @ drop end rota_origem;
                    nova_rota_destino = rota_destino @ bloco
                in if nova_rota_origem = [] then Nada
                   else
                     let custo_antigo = rota_custo rota_origem matriz_distancias deposito
                                        + rota_custo rota_destino matriz_distancias deposito;
                         custo_novo = rota_custo nova_rota_origem matriz_distancias deposito
                                      + rota_custo nova_rota_destino matriz_distancias deposito
                     in if custo_novo < custo_antigo then
                          Achou ((rotas[i := nova_rota_origem])[j := nova_rota_destino],
                                 (demandas[i := sum_list (map demanda nova_rota_origem)])
                                   [j := sum_list (map demanda nova_rota_destino)])
                        else Nada)"

text \<open>
  Lines 398-407 for one ordered pair of routes: both must be non-empty and different;
  \<^verbatim>\<open>demandas[i]\<close> and \<^verbatim>\<open>demandas[j]\<close> are read before the blocks are tried, and raise IndexError
  out of range.
\<close>

definition segment_par ::
  "rota list \<Rightarrow> int list \<Rightarrow> int \<Rightarrow> matriz \<Rightarrow> nat \<Rightarrow> nat \<Rightarrow> nat \<Rightarrow> (rota list \<times> int list) busca" where
  "segment_par rotas demandas capacidade matriz_distancias deposito i j =
     (if i = j \<or> rotas ! i = [] \<or> rotas ! j = [] then Nada
      else if \<not> (i < length demandas \<and> j < length demandas) then Falha IndexError
      else
        let n = length (rotas ! i)
        in primeiro (\<lambda>start.
             primeiro (segment_teste rotas demandas capacidade matriz_distancias deposito i j start)
               [start + 1..<n + 1])
             [0..<n])"

text \<open>
  One scan of \<^verbatim>\<open>segment_relocate\<close> over all ordered pairs of routes (lines 396-434).
\<close>

definition segment_varredura ::
  "rota list \<Rightarrow> int list \<Rightarrow> int \<Rightarrow> matriz \<Rightarrow> nat \<Rightarrow> (rota list \<times> int list) busca" where
  "segment_varredura rotas demandas capacidade matriz_distancias deposito =
     primeiro (\<lambda>i.
       primeiro (segment_par rotas demandas capacidade matriz_distancias deposito i)
         [0..<length rotas])
       [0..<length rotas]"

lemma mset_sem_bloco:
  "start \<le> e \<Longrightarrow>
   mset (take start r @ drop e r) + mset (take (e - start) (drop start r)) = mset r"
proof -
  assume le: "start \<le> e"
  have 1: "mset r = mset (take start r) + mset (drop start r)"
    by (metis append_take_drop_id mset_append)
  have 2: "mset (drop start r)
           = mset (take (e - start) (drop start r)) + mset (drop (e - start) (drop start r))"
    by (metis append_take_drop_id mset_append)
  have 3: "drop (e - start) (drop start r) = drop e r" using le by simp
  show ?thesis using 1 2 3 by simp
qed

lemma segment_teste_Achou:
  assumes "segment_teste rotas demandas cap M dep i j start e = Achou (rotas', demandas')"
    and "i < length rotas" "j < length rotas" "i \<noteq> j" "start \<le> e"
  shows "mset (concat rotas') = mset (concat rotas)"
    and "custo_solucao M dep rotas' < custo_solucao M dep rotas"
    and "length rotas' = length rotas" and "length demandas' = length demandas"
proof -
  let ?bl = "take (e - start) (drop start (rotas ! i))"
  let ?a = "take start (rotas ! i) @ drop e (rotas ! i)"
  let ?b = "rotas ! j @ ?bl"
  from assms(1) have r: "rotas' = (rotas[i := ?a])[j := ?b]"
    and d: "length demandas' = length demandas"
    and c: "rota_custo ?a M dep + rota_custo ?b M dep
            < rota_custo (rotas ! i) M dep + rota_custo (rotas ! j) M dep"
    by (auto simp: segment_teste_def Let_def split: if_splits)
  have m: "mset ?a + mset ?b = mset (rotas ! i) + mset (rotas ! j)"
    using mset_sem_bloco [OF assms(5), of "rotas ! i"] by (simp add: ac_simps)
  show "mset (concat rotas') = mset (concat rotas)"
    unfolding r by (rule troca_duas_rotas(1) [OF assms(2-4) m c])
  show "custo_solucao M dep rotas' < custo_solucao M dep rotas"
    unfolding r by (rule troca_duas_rotas(2) [OF assms(2-4) m c])
  show "length rotas' = length rotas" by (simp add: r)
  show "length demandas' = length demandas" by (rule d)
qed

lemma segment_varredura_Achou:
  assumes "segment_varredura rotas demandas cap M dep = Achou (rotas', demandas')"
  shows "mset (concat rotas') = mset (concat rotas)
         \<and> custo_solucao M dep rotas' < custo_solucao M dep rotas
         \<and> length rotas' = length rotas \<and> length demandas' = length demandas"
proof -
  from primeiro_Achou [OF assms [unfolded segment_varredura_def]]
  obtain i where i: "i < length rotas"
    and 1: "primeiro (segment_par rotas demandas cap M dep i) [0..<length rotas]
            = Achou (rotas', demandas')"
    by auto
  from primeiro_Achou [OF 1]
  obtain j where j: "j < length rotas"
    and 2: "segment_par rotas demandas cap M dep i j = Achou (rotas', demandas')"
    by auto
  from 2 have ij: "i \<noteq> j"
    and 3: "primeiro (\<lambda>start.
             primeiro (segment_teste rotas demandas cap M dep i j start)
               [start + 1..<length (rotas ! i) + 1])
             [0..<length (rotas ! i)] = Achou (rotas', demandas')"
    by (auto simp: segment_par_def Let_def split: if_splits)
  from primeiro_Achou [OF 3]
  obtain start where
    4: "primeiro (segment_teste rotas demandas cap M dep i j start)
               [start + 1..<length (rotas ! i) + 1] = Achou (rotas', demandas')"
    by blast
  from primeiro_Achou [OF 4]
  obtain e where e': "e \<in> set [start + 1..<length (rotas ! i) + 1]"
    and 5: "segment_teste rotas demandas cap M dep i j start e = Achou (rotas', demandas')"
    by blast
  from e' have e: "start \<le> e" by auto
  show ?thesis
    using segment_teste_Achou [OF 5 i j ij e] by simp
qed

lemma poda_zip_length: "length (fst (poda_zip rotas demandas)) = length (snd (poda_zip rotas demandas))"
  by (simp add: poda_zip_def Let_def)

lemma poda_zip_fst:
  "length rotas \<le> length demandas \<Longrightarrow>
   fst (poda_zip rotas demandas) = filter (\<lambda>r. r \<noteq> []) rotas"
proof (induction rotas arbitrary: demandas)
  case Nil
  then show ?case by (simp add: poda_zip_def)
next
  case (Cons r rotas)
  then obtain d ds where "demandas = d # ds" by (cases demandas) auto
  with Cons show ?case by (auto simp: poda_zip_def Let_def)
qed

lemma folga_poda:
  "length rotas \<le> length demandas \<Longrightarrow>
   folga M dep (fst (poda_zip rotas demandas)) = folga M dep rotas"
  by (simp add: poda_zip_fst folga_def concat_filter_vazias custo_solucao_filter)

text \<open>
  \<^verbatim>\<open>while melhorou\<close> (lines 393-443): a scan, then the pruning, in every round; the loop ends
  with the round whose scan finds no move.
\<close>

function segment_relocate_laco ::
  "int \<Rightarrow> matriz \<Rightarrow> nat \<Rightarrow> rota list \<times> int list \<Rightarrow> erro + rota list \<times> int list" where
  "segment_relocate_laco capacidade matriz_distancias deposito (rotas, demandas) =
     (case segment_varredura rotas demandas capacidade matriz_distancias deposito of
        Nada \<Rightarrow> Inr (poda_zip rotas demandas)
      | Achou (rotas', demandas') \<Rightarrow>
          segment_relocate_laco capacidade matriz_distancias deposito (poda_zip rotas' demandas')
      | Falha e \<Rightarrow> Inl e)"
  by pat_completeness auto
termination
proof (relation "measures
         [\<lambda>(c, M, dep, rotas, demandas). if length demandas < length rotas then 1 else 0,
          \<lambda>(c, M, dep, rotas, demandas). folga M dep rotas]",
       goal_cases)
  case 1
  show ?case by simp
next
  case (2 capacidade M dep rotas demandas x2 rotas' demandas')
  then have "segment_varredura rotas demandas capacidade M dep = Achou (rotas', demandas')"
    by simp
  from segment_varredura_Achou [OF this]
  have m: "mset (concat rotas') = mset (concat rotas)"
    and c: "custo_solucao M dep rotas' < custo_solucao M dep rotas"
    and l: "length rotas' = length rotas" "length demandas' = length demandas"
    by simp_all
  obtain pr pd where p: "poda_zip rotas' demandas' = (pr, pd)" by (cases "poda_zip rotas' demandas'")
  have lp: "length pr = length pd" using poda_zip_length [of rotas' demandas'] p by simp
  show ?case
  proof (cases "length demandas < length rotas")
    case True
    then show ?thesis using p lp by simp
  next
    case False
    then have "folga M dep pr = folga M dep rotas'"
      using folga_poda [of rotas' demandas' M dep] p l by simp
    then have "folga M dep pr < folga M dep rotas"
      using folga_menor [OF m c] by simp
    then show ?thesis using p lp False by simp
  qed
qed

declare segment_relocate_laco.simps [simp del]

text \<open>
  \<^verbatim>\<open>segment_relocate\<close>: the loop, then the final check (lines 445-449) that the ids in the
  routes are the expected ones, without repetition; otherwise it raises.
\<close>

definition segment_relocate ::
  "rota list \<Rightarrow> int list \<Rightarrow> int \<Rightarrow> matriz \<Rightarrow> nat \<Rightarrow> servico list \<Rightarrow> erro + rota list \<times> int list" where
  "segment_relocate rotas demandas capacidade matriz_distancias deposito servicos_obrigatorios =
     (case segment_relocate_laco capacidade matriz_distancias deposito (rotas, demandas) of
        Inl e \<Rightarrow> Inl e
      | Inr (rotas', demandas') \<Rightarrow>
          let ids_esperados = set (map id_servico servicos_obrigatorios);
              ids_nas_rotas = map id_servico (concat rotas')
          in if set ids_nas_rotas \<noteq> ids_esperados \<or> length ids_nas_rotas \<noteq> card (set ids_nas_rotas)
             then Inl Excecao
             else Inr (rotas', demandas'))"

section \<open>Descent and multi-start driver (\<^verbatim>\<open>vnd\<close>, \<^verbatim>\<open>multi_start_pipeline\<close>)\<close>

text \<open>
  \<^verbatim>\<open>vnd\<close> (lines 263-266): \<^verbatim>\<open>relocate\<close>, then \<^verbatim>\<open>rotas[i] = two_opt(rotas[i], ...)\<close> for every
  index.
\<close>

definition vnd ::
  "rota list \<Rightarrow> int list \<Rightarrow> int \<Rightarrow> matriz \<Rightarrow> nat \<Rightarrow> erro + rota list \<times> int list" where
  "vnd rotas demandas capacidade matriz_distancias deposito =
     (case relocate rotas demandas capacidade matriz_distancias deposito of
        Inl e \<Rightarrow> Inl e
      | Inr (rotas', demandas') \<Rightarrow>
          Inr (foldl (\<lambda>rs i. rs[i := two_opt (rs ! i) matriz_distancias deposito]) rotas'
                 [0..<length rotas'],
               demandas'))"

text \<open>
  The best solution so far of \<^verbatim>\<open>multi_start_pipeline\<close>: the variables \<^verbatim>\<open>melhor_custo\<close>,
  \<^verbatim>\<open>melhor_num_rotas\<close>, \<^verbatim>\<open>melhor_rotas\<close>, \<^verbatim>\<open>melhor_demandas\<close>, \<^verbatim>\<open>melhor_clock_encontrado\<close>. Before
  the first valid trial they are infinity, infinity and \<^verbatim>\<open>None\<close>: the state \<open>None\<close> here,
  against which every finite cost is lower.
\<close>

record incumbente =
  melhor_custo :: int
  melhor_num_rotas :: nat
  melhor_rotas :: "rota list"
  melhor_demandas :: "int list"
  melhor_clock_encontrado :: int

text \<open>
  The test of line 342:
  \<^verbatim>\<open>custo_total < melhor_custo or (custo_total == melhor_custo and num_rotas < melhor_num_rotas)\<close>.
\<close>

definition melhora :: "int \<Rightarrow> nat \<Rightarrow> incumbente option \<Rightarrow> bool" where
  "melhora custo_total num_rotas melhor =
     (case melhor of
        None \<Rightarrow> True
      | Some m \<Rightarrow>
          custo_total < melhor_custo m
          \<or> (custo_total = melhor_custo m \<and> num_rotas < melhor_num_rotas m))"

text \<open>
  Lines 342-347: the update of the incumbent by a valid trial.
\<close>

definition atualiza_melhor ::
  "int \<Rightarrow> nat \<Rightarrow> rota list \<Rightarrow> int list \<Rightarrow> int \<Rightarrow> incumbente option \<Rightarrow> incumbente option" where
  "atualiza_melhor custo_total num_rotas rotas_final demandas_final clock_tentativa melhor =
     (if melhora custo_total num_rotas melhor then
        Some \<lparr>melhor_custo = custo_total, melhor_num_rotas = num_rotas,
              melhor_rotas = rotas_final, melhor_demandas = demandas_final,
              melhor_clock_encontrado = clock_tentativa\<rparr>
      else melhor)"

text \<open>
  The validation of a trial (lines 335-337): the trial is skipped when the condition of
  line 337 holds.
\<close>

definition solucao_valida :: "servico list \<Rightarrow> rota list \<Rightarrow> bool" where
  "solucao_valida servicos_obrigatorios rotas_final =
     (let ids_esperados = set (map id_servico servicos_obrigatorios);
          ids_nas_rotas = map id_servico (concat rotas_final)
      in \<not> (set ids_nas_rotas \<noteq> ids_esperados
             \<or> length ids_nas_rotas \<noteq> card (set ids_nas_rotas)))"

text \<open>
  One trial (lines 312-349), on the incumbent and the generator state. \<^verbatim>\<open>random.seed\<close> sets
  the generator to the state \<open>semente a\<close> that belongs to the seed \<open>a\<close>, whatever the state
  before. An exception of the construction or of the local searches leaves the trial and the
  run.
\<close>

definition tentativa_pipeline ::
  "(int \<Rightarrow> 'g) \<Rightarrow> 'g sorteio \<Rightarrow> servico list \<Rightarrow> nat \<Rightarrow> matriz \<Rightarrow> int \<Rightarrow> servico list \<Rightarrow> int
   \<Rightarrow> nat \<Rightarrow> int \<Rightarrow> incumbente option \<times> 'g \<Rightarrow> erro + incumbente option \<times> 'g" where
  "tentativa_pipeline semente sorteio servicos deposito matriz_distancias capacidade
     servicos_obrigatorios k_grasp tentativa clock_tentativa st =
     (case st of (melhor, g_anterior) \<Rightarrow>
        let g = semente (12345 + int tentativa)
        in case clarke_wright_grasp sorteio servicos deposito matriz_distancias capacidade k_grasp g of
             Inl e \<Rightarrow> Inl e
           | Inr (rotas, demandas, g') \<Rightarrow>
               (case vnd rotas demandas capacidade matriz_distancias deposito of
                  Inl e \<Rightarrow> Inl e
                | Inr (rotas_otimizadas, demandas_otimizadas) \<Rightarrow>
                    (case segment_relocate rotas_otimizadas demandas_otimizadas capacidade
                            matriz_distancias deposito servicos_obrigatorios of
                       Inl e \<Rightarrow> Inl e
                     | Inr (rotas_final, demandas_final) \<Rightarrow>
                         let custo_total = custo_solucao matriz_distancias deposito rotas_final;
                             num_rotas = length rotas_final
                         in if \<not> solucao_valida servicos_obrigatorios rotas_final
                            then Inr (melhor, g')
                            else Inr (atualiza_melhor custo_total num_rotas rotas_final
                                        demandas_final clock_tentativa melhor, g'))))"

text \<open>
  \<^verbatim>\<open>for tentativa in range(num_tentativas)\<close>. The clock is read once before the loop, once at
  the start of every trial, and once after the loop: \<open>relogio n\<close> is the reading of the
  \<open>n\<close>-th call of \<^verbatim>\<open>time.perf_counter_ns\<close>.
\<close>

fun tentativas ::
  "(int \<Rightarrow> 'g) \<Rightarrow> 'g sorteio \<Rightarrow> (nat \<Rightarrow> int) \<Rightarrow> servico list \<Rightarrow> nat \<Rightarrow> matriz \<Rightarrow> int
   \<Rightarrow> servico list \<Rightarrow> int \<Rightarrow> nat list \<Rightarrow> incumbente option \<times> 'g
   \<Rightarrow> erro + incumbente option \<times> 'g" where
  "tentativas semente sorteio relogio servicos deposito matriz_distancias capacidade
     servicos_obrigatorios k_grasp [] st = Inr st"
| "tentativas semente sorteio relogio servicos deposito matriz_distancias capacidade
     servicos_obrigatorios k_grasp (tentativa # resto) st =
     (case tentativa_pipeline semente sorteio servicos deposito matriz_distancias capacidade
             servicos_obrigatorios k_grasp tentativa (relogio (tentativa + 1)) st of
        Inl e \<Rightarrow> Inl e
      | Inr st' \<Rightarrow>
          tentativas semente sorteio relogio servicos deposito matriz_distancias capacidade
            servicos_obrigatorios k_grasp resto st')"

text \<open>
  \<^verbatim>\<open>multi_start_pipeline\<close>. The result is the best routes and demands (or \<open>None\<close>), the two
  timing figures, and the state of the generator after the run. \<open>ciclos\<close> is the conversion
  of a difference of clock readings (lines 354-359): the identity when \<^verbatim>\<open>freq_hz\<close> is not
  given, and otherwise the floating-point scaling by \<^verbatim>\<open>freq_hz / 1_000_000_000\<close>, truncated,
  which is taken as a parameter.
\<close>

definition multi_start_pipeline ::
  "(int \<Rightarrow> 'g) \<Rightarrow> 'g sorteio \<Rightarrow> (nat \<Rightarrow> int) \<Rightarrow> (int \<Rightarrow> int) \<Rightarrow> servico list \<Rightarrow> nat \<Rightarrow> matriz
   \<Rightarrow> int \<Rightarrow> servico list \<Rightarrow> int \<Rightarrow> nat \<Rightarrow> 'g
   \<Rightarrow> erro + (rota list \<times> int list) option \<times> int \<times> int \<times> 'g" where
  "multi_start_pipeline semente sorteio relogio ciclos servicos deposito matriz_distancias
     capacidade servicos_obrigatorios k_grasp num_tentativas g0 =
     (let clock_inicio = relogio 0
      in case tentativas semente sorteio relogio servicos deposito matriz_distancias capacidade
                servicos_obrigatorios k_grasp [0..<num_tentativas] (None, g0) of
           Inl e \<Rightarrow> Inl e
         | Inr (melhor, g) \<Rightarrow>
             let clock_fim = relogio (num_tentativas + 1);
                 clock_total_ciclos = ciclos (clock_fim - clock_inicio);
                 melhor_clock_encontrado_ciclos =
                   (case melhor of
                      None \<Rightarrow> - 1
                    | Some m \<Rightarrow>
                        if melhor_clock_encontrado m = 0 then - 1
                        else ciclos (melhor_clock_encontrado m - clock_inicio))
             in Inr (map_option (\<lambda>m. (melhor_rotas m, melhor_demandas m)) melhor,
                     clock_total_ciclos, melhor_clock_encontrado_ciclos, g))"

text \<open>
  The batch driver (etapa3/main.py, lines 102-103) maps \<^verbatim>\<open>processar_arquivo\<close> over the
  instance files in a \<^verbatim>\<open>ThreadPoolExecutor\<close>, so several calls of \<^verbatim>\<open>multi_start_pipeline\<close>
  run in one process at the same time, and \<^verbatim>\<open>random.seed\<close> (line 313) and \<^verbatim>\<open>random.choice\<close>
  (line 121) of all of them act on the one generator of the module \<^verbatim>\<open>random\<close>: no run has a
  generator of its own. The state a run draws from is then the state its own last call
  left, changed by what the other threads did to the generator in between. With
  \<open>outras_threads\<close> for that change, a run next to other threads is \<^verbatim>\<open>multi_start_pipeline\<close>
  with the draw \<open>sorteio_partilhado outras_threads sorteio\<close>; a run alone is the case where
  \<open>outras_threads\<close> is the identity. One call of \<^verbatim>\<open>random.choice\<close> on a sequence of length \<open>n\<close>
  in another thread changes the state as \<open>sorteio_alheio sorteio n\<close> does.
\<close>

definition sorteio_partilhado :: "('g \<Rightarrow> 'g) \<Rightarrow> 'g sorteio \<Rightarrow> 'g sorteio" where
  "sorteio_partilhado outras_threads sorteio g n = sorteio (outras_threads g) n"

definition sorteio_alheio :: "'g sorteio \<Rightarrow> nat \<Rightarrow> 'g \<Rightarrow> 'g" where
  "sorteio_alheio sorteio n g = snd (sorteio g n)"

section \<open>Serialisation (\<^verbatim>\<open>salvar_solucao\<close>)\<close>

text \<open>The fields of one printed route line.\<close>

record linha_rota =
  indice_rota :: nat
  demanda_rota :: int
  custo_rota :: int
  total_visitas :: nat
  deposito_rota :: nat
  servicos_impressos :: "(int \<times> nat \<times> nat) list"

text \<open>
  The first loop over the route (lines 495-502): \<^verbatim>\<open>servicos_unicos\<close> is a dictionary keyed by
  service id, kept here as the list of its entries in insertion order; a service whose id
  is already a key is skipped.
\<close>

definition acumula_unicos ::
  "(int \<times> servico) list \<times> int \<times> int \<times> nat list \<Rightarrow> servico
   \<Rightarrow> (int \<times> servico) list \<times> int \<times> int \<times> nat list" where
  "acumula_unicos st serv =
     (case st of (servicos_unicos, dem, custo_serv, destinos) \<Rightarrow>
        if id_servico serv \<in> fst ` set servicos_unicos then st
        else (servicos_unicos @ [(id_servico serv, serv)], dem + demanda serv,
              custo_serv + custo_servico serv, destinos @ [destino serv]))"

text \<open>
  The second loop (lines 517-523): the set of ids already printed, and the
  \<^verbatim>\<open>(S id,origem,destino)\<close> entries appended to the line so far.
\<close>

definition imprime_servico ::
  "int set \<times> (int \<times> nat \<times> nat) list \<Rightarrow> servico \<Rightarrow> int set \<times> (int \<times> nat \<times> nat) list" where
  "imprime_servico st serv =
     (case st of (impressos, trechos) \<Rightarrow>
        if id_servico serv \<in> impressos then st
        else (insert (id_servico serv) impressos,
              trechos @ [(id_servico serv, origem serv, destino serv)]))"

text \<open>Lines 504-508: the transport cost along the destinations that were kept.\<close>

definition custo_transporte_destinos :: "nat list \<Rightarrow> matriz \<Rightarrow> nat \<Rightarrow> int" where
  "custo_transporte_destinos destinos matriz_distancias deposito =
     (if destinos = [] then 0
      else
        foldl (\<lambda>c i. c + matriz_distancias (destinos ! i) (destinos ! (i + 1)))
          (0 + matriz_distancias deposito (destinos ! 0)) [0..<length destinos - 1]
        + matriz_distancias (last destinos) deposito)"

text \<open>
  One route line, \<^verbatim>\<open>0 1 idx demanda custo visitas (D dep,1,1) (S ...)... (D dep,1,1)\<close>, as its
  fields.
\<close>

definition linha_da_rota :: "matriz \<Rightarrow> nat \<Rightarrow> nat \<Rightarrow> rota \<Rightarrow> linha_rota" where
  "linha_da_rota matriz_distancias deposito idx_rota rota =
     (case foldl acumula_unicos ([], 0, 0, []) rota of
        (servicos_unicos, dem, custo_serv, destinos) \<Rightarrow>
          \<lparr>indice_rota = idx_rota,
           demanda_rota = dem,
           custo_rota = custo_serv + custo_transporte_destinos destinos matriz_distancias deposito,
           total_visitas = 2 + length servicos_unicos,
           deposito_rota = deposito,
           servicos_impressos = snd (foldl imprime_servico ({}, []) rota)\<rparr>)"

text \<open>
  The content written to the file: total cost, number of routes, the two timing figures, and
  the route lines; \<^verbatim>\<open>enumerate(rotas, start=1)\<close> numbers the routes from 1.
\<close>

record arquivo_solucao =
  custo_total_solucao :: int
  total_rotas :: nat
  tempo_referencia_execucao :: int
  tempo_referencia_solucao :: int
  linhas_rotas :: "linha_rota list"

definition salvar_solucao :: "rota list \<Rightarrow> matriz \<Rightarrow> int \<Rightarrow> int \<Rightarrow> nat \<Rightarrow> arquivo_solucao" where
  "salvar_solucao rotas matriz_distancias tempo_execucao tempo_solucao deposito =
     (let linhas = map (\<lambda>(idx_rota, rota). linha_da_rota matriz_distancias deposito idx_rota rota)
                     (enumerate 1 rotas)
      in \<lparr>custo_total_solucao = sum_list (map custo_rota linhas),
          total_rotas = length rotas,
          tempo_referencia_execucao = tempo_execucao,
          tempo_referencia_solucao = tempo_solucao,
          linhas_rotas = linhas\<rparr>)"

section \<open>The coverage invariant\<close>

text \<open>
  The multiset of the service ids over all the routes is the set of the catalog's ids, each
  exactly once.
\<close>

definition cobertura :: "servico list \<Rightarrow> rota list \<Rightarrow> bool" where
  "cobertura servicos rotas \<longleftrightarrow>
     mset (map id_servico (concat rotas)) = mset_set (set (map id_servico servicos))"

text \<open>The incumbent of the multi-start loop, when there is one, covers the catalog.\<close>

definition incumbente_cobre :: "servico list \<Rightarrow> incumbente option \<times> 'g \<Rightarrow> bool" where
  "incumbente_cobre obrig st \<longleftrightarrow>
     (case fst st of None \<Rightarrow> True | Some m \<Rightarrow> cobertura obrig (melhor_rotas m))"

section \<open>What a run reports about its best solution\<close>

text \<open>The incumbent without the clock reading stored with it.\<close>

definition sem_relogio :: "incumbente option \<Rightarrow> (int \<times> nat \<times> rota list \<times> int list) option" where
  "sem_relogio melhor =
     map_option (\<lambda>m. (melhor_custo m, melhor_num_rotas m, melhor_rotas m, melhor_demandas m)) melhor"

text \<open>
  The best solution of a run with its total cost and number of routes (the figures printed
  by the driver and written by the serialiser); \<open>None\<close> when no trial was valid, the
  exception when the run aborted. The two timing figures and the generator state are left
  out.
\<close>

definition melhor_encontrado ::
  "matriz \<Rightarrow> nat \<Rightarrow> erro + (rota list \<times> int list) option \<times> int \<times> int \<times> 'g
   \<Rightarrow> erro + (int \<times> nat \<times> rota list \<times> int list) option" where
  "melhor_encontrado matriz_distancias deposito resultado =
     map_sum id
       (\<lambda>(melhor, tempos).
          map_option (\<lambda>(rotas, demandas).
            (custo_solucao matriz_distancias deposito rotas, length rotas, rotas, demandas)) melhor)
       resultado"

section \<open>Concrete instances\<close>

text \<open>A required vertex as a service: origin and destination are the vertex itself.\<close>

definition servico_vertice :: "int \<Rightarrow> nat \<Rightarrow> int \<Rightarrow> int \<Rightarrow> servico" where
  "servico_vertice i v d c =
     \<lparr>id_servico = i, tipo = Vertice, origem = v, destino = v, demanda = d, custo_servico = c\<rparr>"

definition servico_arco :: "int \<Rightarrow> nat \<Rightarrow> nat \<Rightarrow> int \<Rightarrow> int \<Rightarrow> servico" where
  "servico_arco i u v d c =
     \<lparr>id_servico = i, tipo = Arco, origem = u, destino = v, demanda = d, custo_servico = c\<rparr>"

text \<open>A distance matrix given by its table of rows.\<close>

definition tabela :: "int list list \<Rightarrow> matriz" where
  "tabela linhas u v = linhas ! u ! v"

text \<open>Vertices on a line: the distance is the difference of the positions.\<close>

definition linha_reta :: matriz where
  "linha_reta u v = \<bar>int u - int v\<bar>"

text \<open>
  The shortest-path distances of the graph on the vertices 0 to 5 with the edges
  0-2 (4), 0-3 (2), 1-2 (2), 1-3 (1), 2-4 (3), 2-5 (3), 3-4 (2); the depot is vertex 0.
\<close>

definition grafo6 :: matriz where
  "grafo6 = tabela
     [[0, 3, 4, 2, 4, 7],
      [3, 0, 2, 1, 3, 5],
      [4, 2, 0, 3, 3, 3],
      [2, 1, 3, 0, 2, 6],
      [4, 3, 3, 2, 0, 6],
      [7, 5, 3, 6, 6, 0]]"

text \<open>
  The required vertex \<open>v\<close> as a service of demand 1 and service cost 0.
\<close>

definition visita :: "nat \<Rightarrow> servico" where
  "visita v = servico_vertice (int v) v 1 0"


text \<open>An incumbent of given cost and route count.\<close>

definition candidato :: "int \<Rightarrow> nat \<Rightarrow> incumbente" where
  "candidato c n =
     \<lparr>melhor_custo = c, melhor_num_rotas = n, melhor_rotas = replicate n [],
      melhor_demandas = replicate n 0, melhor_clock_encontrado = 1\<rparr>"

text \<open>
  Four vertices on a path, 2 - 1 - 3 - 4, with the edge costs 1, 5 and 1; the depot is
  vertex 1 (row and column 0 of the table are not vertices). The three required vertices
  2, 3 and 4 have the demands 3, 4 and 6, and the capacity used with them is 8.
\<close>

definition caminho4 :: matriz where
  "caminho4 = tabela
     [[0, 0, 0, 0, 0],
      [0, 0, 1, 5, 6],
      [0, 1, 0, 6, 7],
      [0, 5, 6, 0, 1],
      [0, 6, 7, 1, 0]]"

definition inst3 :: "servico list" where
  "inst3 = [servico_vertice 1 2 3 0, servico_vertice 2 3 4 0, servico_vertice 3 4 6 0]"

text \<open>A generator, a seeding function and a clock, to run the pipeline on.\<close>

definition sorteio_fixo :: "nat sorteio" where
  "sorteio_fixo g n = (g, g + 1)"

definition semente_fixa :: "int \<Rightarrow> nat" where
  "semente_fixa a = nat a"

definition relogio_fixo :: "nat \<Rightarrow> int" where
  "relogio_fixo n = 1000 + int n"

text \<open>A seeding function onto few states: the seed \<open>a\<close> gives the state \<open>a mod 11\<close>.\<close>

definition semente_curta :: "int \<Rightarrow> nat" where
  "semente_curta a = nat (a mod 11)"

text \<open>
  Five vertices with the edges 1-2 (2), 1-3 (1), 2-4 (4), 2-5 (2) and 3-5 (3), and their
  shortest-path distances; the depot is vertex 1 (row and column 0 of the table are not
  vertices). The four required vertices 2, 3, 4 and 5 have the demands 2, 1, 3 and 2, and
  the capacity used with them is 8, the sum of the demands.
\<close>

definition grafo5 :: matriz where
  "grafo5 = tabela
     [[0, 0, 0, 0, 0, 0],
      [0, 0, 2, 1, 6, 4],
      [0, 2, 0, 3, 4, 2],
      [0, 1, 3, 0, 7, 3],
      [0, 6, 4, 7, 0, 6],
      [0, 4, 2, 3, 6, 0]]"

definition inst4 :: "servico list" where
  "inst4 = [servico_vertice 1 2 2 0, servico_vertice 2 3 1 0, servico_vertice 3 4 3 0,
            servico_vertice 4 5 2 0]"

section \<open>Route cost: the claims\<close>

lemma foldl_soma:
  "foldl (\<lambda>c i. c + f i) c [0..<n] = c + (\<Sum>i<n. f i)" for c :: int
  by (induction n) simp_all

text \<open>
  C1 (as amended). For every non-empty route, \<^verbatim>\<open>rota_custo\<close> is the sum of the service costs
  of its services plus the transport cost taken between destinations: from the depot to the
  first service's destination, from each service's destination to the next service's
  destination, and from the last service's destination to the depot. The origin of a
  service is never read.
\<close>

theorem rota_custo_destinos:
  "rota \<noteq> [] \<Longrightarrow>
   rota_custo rota M dep =
     sum_list (map custo_servico rota)
     + (M dep (destino (hd rota))
        + (\<Sum>i<length rota - 1. M (destino (rota ! i)) (destino (rota ! (i + 1))))
        + M (destino (last rota)) dep)"
  by (simp add: rota_custo_def Let_def foldl_soma hd_conv_nth last_map)

theorem rota_custo_destinos_witness:
  "[servico_arco 1 2 3 4 5, servico_arco 2 1 2 1 7] \<noteq> []
   \<and> rota_custo [servico_arco 1 2 3 4 5, servico_arco 2 1 2 1 7] linha_reta 1 = 16"
  using rota_custo_destinos [of "[servico_arco 1 2 3 4 5, servico_arco 2 1 2 1 7]" linha_reta 1]
  by (simp add: servico_arco_def linha_reta_def)

text \<open>
  C1 as stated takes the legs to the origin of the next service. For the single arc service
  from vertex 2 to vertex 3 on the line, with the depot at vertex 1, the engine's cost is
  5 + 2 + 2 = 9 (depot to vertex 3 and back), and the stated formula gives 5 + 1 + 2 = 8.
\<close>

theorem rota_custo_spec_counterexample:
  "[servico_arco 1 2 3 4 5] \<noteq> []
   \<and> rota_custo [servico_arco 1 2 3 4 5] linha_reta 1 = 9
   \<and> rota_custo_spec [servico_arco 1 2 3 4 5] linha_reta 1 = 8"
  by (simp add: rota_custo_def rota_custo_spec_def servico_arco_def linha_reta_def)


section \<open>Intra-route reordering: the claims\<close>

lemma inverte_props:
  assumes "Suc 0 \<le> i" "i \<le> j"
  shows "take (Suc 0) (inverte r i j) = take (Suc 0) r" and "mset (inverte r i j) = mset r"
proof -
  have 1: "mset r = mset (take i r) + mset (drop i r)"
    by (metis append_take_drop_id mset_append)
  have 2: "mset (drop i r)
           = mset (take (j - i) (drop i r)) + mset (drop (j - i) (drop i r))"
    by (metis append_take_drop_id mset_append)
  have 3: "drop (j - i) (drop i r) = drop j r" using assms by simp
  show "mset (inverte r i j) = mset r"
    using 1 2 3 by (simp add: inverte_def)
  show "take (Suc 0) (inverte r i j) = take (Suc 0) r"
    using assms by (cases r; cases i) (auto simp: inverte_def)
qed

lemma two_opt_teste_conserva:
  "Suc 0 \<le> i \<Longrightarrow> i \<le> j \<Longrightarrow> conserva r st \<Longrightarrow> conserva r (two_opt_teste M dep i st j)"
  by (auto simp: conserva_def two_opt_teste_def Let_def inverte_props)

lemma foldl_conserva:
  "(\<And>x st. x \<in> set xs \<Longrightarrow> P st \<Longrightarrow> P (f st x)) \<Longrightarrow> P st \<Longrightarrow> P (foldl f st xs)"
  by (induction xs arbitrary: st) auto

lemma two_opt_interno_conserva:
  assumes "Suc 0 \<le> i" "conserva r st"
  shows "conserva r (two_opt_interno M dep st i)"
  unfolding two_opt_interno_def
proof (rule foldl_conserva)
  show "conserva r st" by (rule assms(2))
next
  fix j st'
  assume "j \<in> set [i + 1..<length (fst st)]" "conserva r st'"
  then show "conserva r (two_opt_teste M dep i st' j)"
    using assms(1) by (intro two_opt_teste_conserva) auto
qed

lemma two_opt_varredura_conserva: "conserva r (two_opt_varredura M dep r)"
  unfolding two_opt_varredura_def
proof (rule foldl_conserva)
  show "conserva r (r, False)" by (simp add: conserva_def)
next
  fix i st
  assume "i \<in> set [1..<length r - 1]" "conserva r st"
  then show "conserva r (two_opt_interno M dep st i)"
    by (intro two_opt_interno_conserva) auto
qed

lemma two_opt_laco_varredura:
  "two_opt_laco M dep (r, True) = fst (two_opt_varredura M dep r)"
  by (cases "two_opt_varredura M dep r") (simp add: two_opt_laco.simps)

lemma two_opt_varredura_eq:
  "two_opt r M dep = (if length r < 3 then r else fst (two_opt_varredura M dep r))"
  by (simp only: two_opt_def two_opt_laco_varredura)

lemma two_opt_conserva: "conserva r (two_opt r M dep, b)"
  using two_opt_varredura_conserva [of r M dep]
  by (simp add: two_opt_varredura_eq conserva_def)

text \<open>
  C5. The claim says that \<^verbatim>\<open>two_opt\<close> returns only at a fixed point of its scan. On the route
  visiting the vertices 1, 2, 3, 4, 5 of the graph above it returns the route 1, 4, 3, 2, 5
  of cost 21 after a single scan, although reversing the positions 1 and 2 of that route
  (one of the pairs the scan tests) gives the route 1, 3, 4, 2, 5 of cost 19: a second call
  changes the route again.
\<close>

theorem two_opt_nao_ponto_fixo:
  "length (map visita [1, 2, 3, 4, 5]) \<ge> 3
   \<and> two_opt (map visita [1, 2, 3, 4, 5]) grafo6 0 = map visita [1, 4, 3, 2, 5]
   \<and> rota_custo (map visita [1, 4, 3, 2, 5]) grafo6 0 = 21
   \<and> inverte (map visita [1, 4, 3, 2, 5]) 1 3 = map visita [1, 3, 4, 2, 5]
   \<and> rota_custo (map visita [1, 3, 4, 2, 5]) grafo6 0 = 19
   \<and> two_opt (map visita [1, 4, 3, 2, 5]) grafo6 0 \<noteq> map visita [1, 4, 3, 2, 5]"
  by code_simp

text \<open>
  C10. For every non-empty input route, the route returned by \<^verbatim>\<open>two_opt\<close> is not empty and
  starts with the same service; the services after the first are the same ones, possibly in
  another order.
\<close>

theorem two_opt_primeiro_servico:
  "rota \<noteq> [] \<Longrightarrow>
   two_opt rota M dep \<noteq> []
   \<and> hd (two_opt rota M dep) = hd rota
   \<and> mset (tl (two_opt rota M dep)) = mset (tl rota)"
proof -
  assume ne: "rota \<noteq> []"
  let ?t = "two_opt rota M dep"
  have t: "take (Suc 0) ?t = take (Suc 0) rota" and m: "mset ?t = mset rota"
    using two_opt_conserva [of rota M dep True] by (simp_all add: conserva_def)
  from m ne have ne': "?t \<noteq> []" by auto
  from t ne ne' have h: "hd ?t = hd rota" by (cases rota; cases ?t) auto
  have "mset ?t = add_mset (hd ?t) (mset (tl ?t))" using ne' by (cases ?t) auto
  moreover have "mset rota = add_mset (hd rota) (mset (tl rota))" using ne by (cases rota) auto
  ultimately have "mset (tl ?t) = mset (tl rota)" using m h by simp
  with ne' h show ?thesis by simp
qed

theorem two_opt_primeiro_servico_witness:
  "map visita [1, 2, 3, 4, 5] \<noteq> []
   \<and> two_opt (map visita [1, 2, 3, 4, 5]) grafo6 0 = map visita [1, 4, 3, 2, 5]
   \<and> hd (two_opt (map visita [1, 2, 3, 4, 5]) grafo6 0) = hd (map visita [1, 2, 3, 4, 5])
   \<and> mset (tl (two_opt (map visita [1, 2, 3, 4, 5]) grafo6 0))
       = mset (tl (map visita [1, 2, 3, 4, 5]))"
proof -
  have e: "two_opt (map visita [1, 2, 3, 4, 5]) grafo6 0 = map visita [1, 4, 3, 2, 5]"
    by code_simp
  have ne: "map visita [1, 2, 3, 4, 5] \<noteq> []" by simp
  from two_opt_primeiro_servico [OF ne, of grafo6 0] e ne show ?thesis by blast
qed

section \<open>Incumbent selection: the claim\<close>

text \<open>
  C6. The update of the incumbent (line 342). With no incumbent yet, the trial's solution
  becomes the incumbent. Otherwise it replaces the incumbent exactly when its total cost is
  strictly lower, or equal with strictly fewer routes; in every other case, ties on both
  included, the incumbent is kept. Of the candidates (100, 3 routes) and (100, 2 routes) the
  one with 2 routes is selected in either order of arrival, and of (90, 5 routes) and
  (100, 2 routes) the one of cost 90.
\<close>

theorem regra_de_selecao:
  "atualiza_melhor c n rotas demandas clock None
     = Some \<lparr>melhor_custo = c, melhor_num_rotas = n, melhor_rotas = rotas,
             melhor_demandas = demandas, melhor_clock_encontrado = clock\<rparr>
   \<and> atualiza_melhor c n rotas demandas clock (Some m)
     = (if c < melhor_custo m \<or> (c = melhor_custo m \<and> n < melhor_num_rotas m)
        then Some \<lparr>melhor_custo = c, melhor_num_rotas = n, melhor_rotas = rotas,
                   melhor_demandas = demandas, melhor_clock_encontrado = clock\<rparr>
        else Some m)
   \<and> atualiza_melhor 100 2 r2 d2 k2 (atualiza_melhor 100 3 r3 d3 k3 None)
     = Some \<lparr>melhor_custo = 100, melhor_num_rotas = 2, melhor_rotas = r2,
             melhor_demandas = d2, melhor_clock_encontrado = k2\<rparr>
   \<and> atualiza_melhor 100 3 r3 d3 k3 (atualiza_melhor 100 2 r2 d2 k2 None)
     = Some \<lparr>melhor_custo = 100, melhor_num_rotas = 2, melhor_rotas = r2,
             melhor_demandas = d2, melhor_clock_encontrado = k2\<rparr>
   \<and> atualiza_melhor 100 2 r2 d2 k2 (atualiza_melhor 90 5 r5 d5 k5 None)
     = Some \<lparr>melhor_custo = 90, melhor_num_rotas = 5, melhor_rotas = r5,
             melhor_demandas = d5, melhor_clock_encontrado = k5\<rparr>
   \<and> atualiza_melhor 90 5 r5 d5 k5 (atualiza_melhor 100 2 r2 d2 k2 None)
     = Some \<lparr>melhor_custo = 90, melhor_num_rotas = 5, melhor_rotas = r5,
             melhor_demandas = d5, melhor_clock_encontrado = k5\<rparr>"
  by (simp add: atualiza_melhor_def melhora_def)

theorem regra_de_selecao_witness:
  "atualiza_melhor 7 1 [[]] [0] 3 (Some (candidato 7 1)) = Some (candidato 7 1)
   \<and> atualiza_melhor 7 1 [[]] [0] 3 (Some (candidato 7 2))
     = Some \<lparr>melhor_custo = 7, melhor_num_rotas = 1, melhor_rotas = [[]],
             melhor_demandas = [0], melhor_clock_encontrado = 3\<rparr>
   \<and> atualiza_melhor 7 1 [[]] [0] 3 (Some (candidato 6 2)) = Some (candidato 6 2)"
  using regra_de_selecao [of 7 1 "[[]]" "[0]" 3 "candidato 7 1"]
    regra_de_selecao [of 7 1 "[[]]" "[0]" 3 "candidato 7 2"]
    regra_de_selecao [of 7 1 "[[]]" "[0]" 3 "candidato 6 2"]
  by (simp add: candidato_def)

section \<open>The capacity guard of the construction: the claim\<close>

text \<open>
  C8. The claim says that construction raises before building any route when a service's
  demand exceeds the capacity. The constructor of etapa2 does; the constructor of etapa3,
  which the engine uses, takes the capacity and never reads it: for one service of demand 10
  and capacity 5 it builds the route, and \<^verbatim>\<open>clarke_wright_grasp\<close> returns it, for every
  generator and pool size.
\<close>

theorem construcao_sem_guarda:
  "demanda (servico_vertice 1 2 10 0) > 5
   \<and> construir_rotas_iniciais_etapa2 [servico_vertice 1 2 10 0] 1 linha_reta 5 = Inl ValueError
   \<and> construir_rotas_iniciais [servico_vertice 1 2 10 0] 1 linha_reta 5
       = ([[servico_vertice 1 2 10 0]], [10])
   \<and> clarke_wright_grasp sorteio [servico_vertice 1 2 10 0] 1 linha_reta 5 k g
       = Inr ([[servico_vertice 1 2 10 0]], [10], g)"
  by (simp add: construir_rotas_iniciais_etapa2_def construir_rotas_iniciais_def
      clarke_wright_grasp_def calcular_savings_def poda_rotas_def servico_vertice_def
      cw_laco.simps)

section \<open>Serialisation: the claim\<close>

lemma foldl_acumula_unicos:
  "distinct (map fst us) \<Longrightarrow>
   distinct (map fst (fst (foldl acumula_unicos (us, d, c, ds) rota)))
   \<and> fst ` set (fst (foldl acumula_unicos (us, d, c, ds) rota)) = fst ` set us \<union> id_servico ` set rota"
proof (induction rota arbitrary: us d c ds)
  case Nil
  then show ?case by simp
next
  case (Cons s rota)
  show ?case
  proof (cases "id_servico s \<in> fst ` set us")
    case True
    then have "acumula_unicos (us, d, c, ds) s = (us, d, c, ds)" by (simp add: acumula_unicos_def)
    with Cons True show ?thesis by auto
  next
    case False
    then have e: "acumula_unicos (us, d, c, ds) s
                = (us @ [(id_servico s, s)], d + demanda s, c + custo_servico s, ds @ [destino s])"
      by (simp add: acumula_unicos_def)
    have "distinct (map fst (us @ [(id_servico s, s)]))" using Cons.prems False by auto
    from Cons.IH [OF this] show ?thesis by (auto simp: e)
  qed
qed

lemma foldl_imprime_servico:
  "distinct (map fst ts) \<Longrightarrow> fst ` set ts = imp \<Longrightarrow>
   distinct (map fst (snd (foldl imprime_servico (imp, ts) rota)))
   \<and> fst ` set (snd (foldl imprime_servico (imp, ts) rota)) = imp \<union> id_servico ` set rota
   \<and> set (snd (foldl imprime_servico (imp, ts) rota))
       \<subseteq> set ts \<union> (\<lambda>s. (id_servico s, origem s, destino s)) ` set rota"
proof (induction rota arbitrary: imp ts)
  case Nil
  then show ?case by simp
next
  case (Cons s rota)
  show ?case
  proof (cases "id_servico s \<in> imp")
    case True
    then have "imprime_servico (imp, ts) s = (imp, ts)" by (simp add: imprime_servico_def)
    with Cons True show ?thesis by auto
  next
    case False
    let ?ts = "ts @ [(id_servico s, origem s, destino s)]"
    from False have e: "imprime_servico (imp, ts) s = (insert (id_servico s) imp, ?ts)"
      by (simp add: imprime_servico_def)
    have 1: "distinct (map fst ?ts)" using Cons.prems False by auto
    have 2: "fst ` set ?ts = insert (id_servico s) imp" using Cons.prems by auto
    from Cons.IH [OF 1 2] show ?thesis by (auto simp: e)
  qed
qed

text \<open>
  C9. On the line of a route, the printed services have pairwise different ids, the printed
  ids are exactly the ids of the route's services, every printed entry is the (id, origin,
  destination) of a service of the route, and the visit count is 2 plus the number of
  different ids in the route; \<^verbatim>\<open>salvar_solucao\<close> prints one such line per route, numbered
  from 1.
\<close>

theorem servicos_impressos_uma_vez:
  "distinct (map fst (servicos_impressos (linha_da_rota M dep idx rota)))
   \<and> set (map fst (servicos_impressos (linha_da_rota M dep idx rota))) = id_servico ` set rota
   \<and> set (servicos_impressos (linha_da_rota M dep idx rota))
       \<subseteq> (\<lambda>s. (id_servico s, origem s, destino s)) ` set rota
   \<and> total_visitas (linha_da_rota M dep idx rota) = 2 + card (id_servico ` set rota)
   \<and> linhas_rotas (salvar_solucao rotas M tempo1 tempo2 dep)
       = map (\<lambda>i. linha_da_rota M dep (i + 1) (rotas ! i)) [0..<length rotas]"
proof -
  obtain us d c ds where f: "foldl acumula_unicos ([], 0, 0, []) rota = (us, d, c, ds)"
    by (cases "foldl acumula_unicos ([], 0, 0, []) rota") auto
  have u: "distinct (map fst us)" "fst ` set us = id_servico ` set rota"
    using foldl_acumula_unicos [of "[]" 0 0 "[]" rota] f by auto
  have "card (id_servico ` set rota) = length us"
    using u by (metis distinct_card length_map set_map)
  then have v: "total_visitas (linha_da_rota M dep idx rota) = 2 + card (id_servico ` set rota)"
    by (simp add: linha_da_rota_def f)
  have i: "servicos_impressos (linha_da_rota M dep idx rota) = snd (foldl imprime_servico ({}, []) rota)"
    by (simp add: linha_da_rota_def f)
  have l: "linhas_rotas (salvar_solucao rotas M tempo1 tempo2 dep)
       = map (\<lambda>i. linha_da_rota M dep (i + 1) (rotas ! i)) [0..<length rotas]"
    unfolding salvar_solucao_def Let_def
  proof (simp, rule nth_equalityI)
    show "length (map (\<lambda>(idx_rota, rota). linha_da_rota M dep idx_rota rota) (enumerate (Suc 0) rotas))
          = length (map (\<lambda>i. linha_da_rota M dep (Suc i) (rotas ! i)) [0..<length rotas])"
      by simp
  next
    fix i
    assume "i < length (map (\<lambda>(idx_rota, rota). linha_da_rota M dep idx_rota rota)
                         (enumerate (Suc 0) rotas))"
    then have "i < length rotas" by simp
    then show "map (\<lambda>(idx_rota, rota). linha_da_rota M dep idx_rota rota) (enumerate (Suc 0) rotas) ! i
               = map (\<lambda>i. linha_da_rota M dep (Suc i) (rotas ! i)) [0..<length rotas] ! i"
      by (simp add: nth_enumerate_eq)
  qed
  have p: "distinct (map fst (snd (foldl imprime_servico ({}, []) rota)))
    \<and> fst ` set (snd (foldl imprime_servico ({}, []) rota)) = {} \<union> id_servico ` set rota
    \<and> set (snd (foldl imprime_servico ({}, []) rota))
        \<subseteq> set [] \<union> (\<lambda>s. (id_servico s, origem s, destino s)) ` set rota"
    by (rule foldl_imprime_servico) simp_all
  show ?thesis
    unfolding i using p v l by simp
qed

theorem servicos_impressos_uma_vez_witness:
  "servicos_impressos (linha_da_rota linha_reta 1 1
      [servico_arco 7 2 3 4 5, servico_vertice 8 4 1 1, servico_arco 7 2 3 4 5])
     = [(7, 2, 3), (8, 4, 4)]
   \<and> total_visitas (linha_da_rota linha_reta 1 1
      [servico_arco 7 2 3 4 5, servico_vertice 8 4 1 1, servico_arco 7 2 3 4 5]) = 4
   \<and> card (id_servico ` set [servico_arco 7 2 3 4 5, servico_vertice 8 4 1 1, servico_arco 7 2 3 4 5]) = 2"
proof -
  have "servicos_impressos (linha_da_rota linha_reta 1 1
      [servico_arco 7 2 3 4 5, servico_vertice 8 4 1 1, servico_arco 7 2 3 4 5])
     = [(7, 2, 3), (8, 4, 4)]"
    by (simp add: linha_da_rota_def acumula_unicos_def imprime_servico_def servico_arco_def
        servico_vertice_def)
  moreover have "card (id_servico ` set [servico_arco 7 2 3 4 5, servico_vertice 8 4 1 1, servico_arco 7 2 3 4 5]) = 2"
    by code_simp
  ultimately show ?thesis
    using servicos_impressos_uma_vez [of linha_reta 1 1
        "[servico_arco 7 2 3 4 5, servico_vertice 8 4 1 1, servico_arco 7 2 3 4 5]"]
    by simp
qed

section \<open>The pipeline on the instance of three services\<close>

text \<open>
  With a pool of size 1 the choice among the top savings does not depend on the generator:
  the loop takes the first available saving.
\<close>

lemma random_choice_um: "random_choice sorteio g [x] = Inr (x, snd (sorteio g 1))"
  by (simp add: random_choice_def)

lemma cw_laco_um:
  "cw_laco sorteio servicos cap 1 (rotas, demandas, (s, i, j) # resto, g) =
     (if i < length servicos \<and> j < length servicos then
        (case funde rotas demandas cap
                (procura_rotas rotas (id_servico (servicos ! i)) (id_servico (servicos ! j))) of
           Inl e \<Rightarrow> Inl e
         | Inr (rotas', demandas') \<Rightarrow>
             cw_laco sorteio servicos cap 1 (rotas', demandas', resto, snd (sorteio g 1)))
      else Inl IndexError)"
  by (subst cw_laco.simps) (auto simp: fatia_ate_def random_choice_um split: sum.splits)

lemma cw_laco_fim: "cw_laco sorteio servicos cap k (rotas, demandas, [], g) = Inr (rotas, demandas, g)"
  by (simp add: cw_laco.simps)

lemma savings_inst3: "calcular_savings inst3 1 caminho4 = [(10, 1, 2), (0, 0, 2), (0, 0, 1)]"
  by code_simp

lemma cw_laco_inst3:
  "cw_laco sorteio inst3 8 1
     ([[servico_vertice 1 2 3 0], [servico_vertice 2 3 4 0], [servico_vertice 3 4 6 0]],
      [3, 4, 6], [(10, 1, 2), (0, 0, 2), (0, 0, 1)], g)
   = Inr ([[servico_vertice 1 2 3 0, servico_vertice 2 3 4 0], [], [servico_vertice 3 4 6 0]],
          [7, 0, 6], snd (sorteio (snd (sorteio (snd (sorteio g 1)) 1)) 1))"
  by (simp add: inst3_def cw_laco_um cw_laco_fim funde_def procura_rotas_def enumerate_eq_zip
      servico_vertice_def)

lemma rotas_iniciais_inst3:
  "construir_rotas_iniciais inst3 1 caminho4 8
   = ([[servico_vertice 1 2 3 0], [servico_vertice 2 3 4 0], [servico_vertice 3 4 6 0]], [3, 4, 6])"
  by code_simp

lemma poda_inst3:
  "poda_rotas [[servico_vertice 1 2 3 0, servico_vertice 2 3 4 0], [], [servico_vertice 3 4 6 0]]
     [7, 0, 6]
   = ([[servico_vertice 1 2 3 0, servico_vertice 2 3 4 0], [servico_vertice 3 4 6 0]], [7, 0])"
  by code_simp

lemma ids_inst3:
  "set (map id_servico inst3)
   = set (map id_servico
       (concat [[servico_vertice 1 2 3 0, servico_vertice 2 3 4 0], [servico_vertice 3 4 6 0]]))"
  by code_simp

lemma construcao_inst3:
  "clarke_wright_grasp sorteio inst3 1 caminho4 8 1 g =
  Inr ([[servico_vertice 1 2 3 0, servico_vertice 2 3 4 0], [servico_vertice 3 4 6 0]], [7, 0],
       snd (sorteio (snd (sorteio (snd (sorteio g 1)) 1)) 1))"
  unfolding clarke_wright_grasp_def savings_inst3 rotas_iniciais_inst3
  by (simp only: cw_laco_inst3 poda_inst3 ids_inst3 Let_def prod.case sum.case if_False
      not_True_eq_False simp_thms)

lemma relocate_inst3:
  "relocate [[servico_vertice 1 2 3 0, servico_vertice 2 3 4 0], [servico_vertice 3 4 6 0]]
     [7, 0] 8 caminho4 1
  = Inr ([[servico_vertice 1 2 3 0], [servico_vertice 3 4 6 0, servico_vertice 2 3 4 0]], [3, 4])"
  by code_simp

lemma vnd_inst3:
  "vnd [[servico_vertice 1 2 3 0, servico_vertice 2 3 4 0], [servico_vertice 3 4 6 0]]
     [7, 0] 8 caminho4 1
  = Inr ([[servico_vertice 1 2 3 0], [servico_vertice 3 4 6 0, servico_vertice 2 3 4 0]], [3, 4])"
  by code_simp

lemma segment_relocate_inst3:
  "segment_relocate [[servico_vertice 1 2 3 0], [servico_vertice 3 4 6 0, servico_vertice 2 3 4 0]]
     [3, 4] 8 caminho4 1 inst3
  = Inr ([[servico_vertice 1 2 3 0], [servico_vertice 3 4 6 0, servico_vertice 2 3 4 0]], [3, 4])"
  by code_simp

lemma valida_inst3:
  "solucao_valida inst3
     [[servico_vertice 1 2 3 0], [servico_vertice 3 4 6 0, servico_vertice 2 3 4 0]]"
  by code_simp

lemma custo_inst3:
  "custo_solucao caminho4 1
     [[servico_vertice 1 2 3 0], [servico_vertice 3 4 6 0, servico_vertice 2 3 4 0]] = 14"
  by code_simp

lemma tentativa_inst3:
  "tentativa_pipeline semente sorteio inst3 1 caminho4 8 inst3 1 t c (None, g0)
   = Inr (Some \<lparr>melhor_custo = 14, melhor_num_rotas = 2,
                 melhor_rotas = [[servico_vertice 1 2 3 0],
                                 [servico_vertice 3 4 6 0, servico_vertice 2 3 4 0]],
                 melhor_demandas = [3, 4], melhor_clock_encontrado = c\<rparr>,
          snd (sorteio (snd (sorteio (snd (sorteio (semente (12345 + int t)) 1)) 1)) 1))"
  unfolding tentativa_pipeline_def
  by (simp only: construcao_inst3 vnd_inst3 segment_relocate_inst3 valida_inst3 custo_inst3 atualiza_melhor_def melhora_def Let_def prod.case
      sum.case option.case if_True if_False not_True_eq_False simp_thms)
    simp

lemma um_intervalo: "[0..<1] = [0::nat]"
  by simp

lemma multi_start_inst3:
  "map_sum id fst
     (multi_start_pipeline semente sorteio relogio ciclos inst3 1 caminho4 8 inst3 1 1 g0)
  = Inr (Some ([[servico_vertice 1 2 3 0], [servico_vertice 3 4 6 0, servico_vertice 2 3 4 0]], [3, 4]))"
  unfolding multi_start_pipeline_def um_intervalo
  by (simp add: tentativa_inst3 Let_def del: One_nat_def)

section \<open>Demand bookkeeping and capacity: the claims\<close>

text \<open>
  C2. The claim says that after every structural stage the demand list is in sync with the
  routes. On the instance above, for every generator, construction merges the services of
  demands 3 and 4 and empties the second of the three routes; its pruning then pairs the
  two routes that remain with the first two entries of the unpruned demand list, and
  returns the demands [7, 0] for routes whose demands are [7, 6]. \<^verbatim>\<open>relocate\<close> starts from
  these and returns the demands [3, 4] for routes whose demands are [3, 10].
\<close>

theorem construcao_demandas_fora_de_sincronia:
  "clarke_wright_grasp sorteio inst3 1 caminho4 8 1 g
     = Inr ([[servico_vertice 1 2 3 0, servico_vertice 2 3 4 0], [servico_vertice 3 4 6 0]],
            [7, 0], snd (sorteio (snd (sorteio (snd (sorteio g 1)) 1)) 1))
   \<and> map (\<lambda>rota. sum_list (map demanda rota))
         [[servico_vertice 1 2 3 0, servico_vertice 2 3 4 0], [servico_vertice 3 4 6 0]] = [7, 6]
   \<and> relocate [[servico_vertice 1 2 3 0, servico_vertice 2 3 4 0], [servico_vertice 3 4 6 0]]
         [7, 0] 8 caminho4 1
     = Inr ([[servico_vertice 1 2 3 0], [servico_vertice 3 4 6 0, servico_vertice 2 3 4 0]], [3, 4])
   \<and> map (\<lambda>rota. sum_list (map demanda rota))
         [[servico_vertice 1 2 3 0], [servico_vertice 3 4 6 0, servico_vertice 2 3 4 0]] = [3, 10]"
proof -
  have "map (\<lambda>rota. sum_list (map demanda rota))
         [[servico_vertice 1 2 3 0, servico_vertice 2 3 4 0], [servico_vertice 3 4 6 0]] = [7, 6]"
    by (simp add: servico_vertice_def)
  moreover have "map (\<lambda>rota. sum_list (map demanda rota))
         [[servico_vertice 1 2 3 0], [servico_vertice 3 4 6 0, servico_vertice 2 3 4 0]] = [3, 10]"
    by (simp add: servico_vertice_def)
  ultimately show ?thesis by (intro conjI) (rule construcao_inst3, assumption, rule relocate_inst3, assumption)
qed

text \<open>
  C3. The claim says that every route of every accepted solution respects the capacity. On
  the same instance, where every service fits the capacity 8, one trial of the pipeline
  returns, for every generator, a solution whose second route serves the demands 6 and 4:
  \<^verbatim>\<open>relocate\<close> tests the move against the recorded demand 0 of that route.
\<close>

theorem pipeline_viola_capacidade:
  "map demanda inst3 = [3, 4, 6]
   \<and> map_sum id fst
        (multi_start_pipeline semente sorteio relogio ciclos inst3 1 caminho4 8 inst3 1 1 g0)
     = Inr (Some ([[servico_vertice 1 2 3 0], [servico_vertice 3 4 6 0, servico_vertice 2 3 4 0]],
                  [3, 4]))
   \<and> sum_list (map demanda [servico_vertice 3 4 6 0, servico_vertice 2 3 4 0]) = 10"
proof -
  have "map demanda inst3 = [3, 4, 6]" by (simp add: inst3_def servico_vertice_def)
  moreover have "sum_list (map demanda [servico_vertice 3 4 6 0, servico_vertice 2 3 4 0]) = 10"
    by (simp add: servico_vertice_def)
  ultimately show ?thesis by (intro conjI) (assumption, rule multi_start_inst3, assumption)
qed

section \<open>Coverage: the claim\<close>

lemma foldl_invariante:
  "(\<And>x st. x \<in> set xs \<Longrightarrow> P st \<Longrightarrow> P (f st x)) \<Longrightarrow> P st \<Longrightarrow> P (foldl f st xs)"
  by (induction xs arbitrary: st) auto

lemma construir_rotas_iniciais_foldl:
  "foldl (\<lambda>(rotas, demandas) serv. (rotas @ [[serv]], demandas @ [demanda serv])) (rs, ds) servicos
   = (rs @ map (\<lambda>s. [s]) servicos, ds @ map demanda servicos)"
  by (induction servicos arbitrary: rs ds) auto

lemma construir_rotas_iniciais_eq:
  "construir_rotas_iniciais servicos dep M cap = (map (\<lambda>s. [s]) servicos, map demanda servicos)"
  by (simp add: construir_rotas_iniciais_def construir_rotas_iniciais_foldl)

lemma concat_singletons: "concat (map (\<lambda>s. [s]) xs) = xs"
  by (induction xs) auto

lemma procura_rotas_limite:
  assumes "procura_rotas rotas a b = (idx_i, idx_j)"
  shows "(\<forall>x. idx_i = Some x \<longrightarrow> x < length rotas) \<and> (\<forall>x. idx_j = Some x \<longrightarrow> x < length rotas)"
proof -
  let ?P = "\<lambda>st. (\<forall>x. fst st = Some x \<longrightarrow> x < length rotas) \<and> (\<forall>x. snd st = Some x \<longrightarrow> x < length rotas)"
  have "?P (procura_rotas rotas a b)"
    unfolding procura_rotas_def
  proof (rule foldl_invariante)
    show "?P (None, None)" by simp
  next
    fix x st
    assume x: "x \<in> set (enumerate 0 rotas)" and st: "?P st"
    obtain idx rota where xe: "x = (idx, rota)" by (cases x)
    obtain u v where se: "st = (u, v)" by (cases st)
    from x xe have "idx < length rotas" by (simp add: in_set_enumerate_eq)
    with st show "?P ((\<lambda>(idx_i, idx_j) (idx, rota).
              (if rota \<noteq> [] \<and> id_servico (rota ! 0) = a then Some idx else idx_i,
               if rota \<noteq> [] \<and> id_servico (last rota) = b then Some idx else idx_j)) st x)"
      unfolding xe se by simp
  qed
  with assms show ?thesis by simp
qed

lemma mset_concat_update:
  "i < length rs \<Longrightarrow> mset a = mset (rs ! i) \<Longrightarrow> mset (concat (rs[i := a])) = mset (concat rs)"
  unfolding mset_concat using sum_list_map_update [of i rs mset a] by simp

lemma mset_concat_update2:
  assumes "i < length rs" "j < length rs" "i \<noteq> j" "mset a + mset b = mset (rs ! i) + mset (rs ! j)"
  shows "mset (concat ((rs[i := a])[j := b])) = mset (concat rs)"
proof -
  have "mset (concat ((rs[i := a])[j := b])) + (mset (rs ! i) + mset (rs ! j))
        = mset (concat rs) + (mset a + mset b)"
    unfolding mset_concat using sum_list_map_update2 [OF assms(1-3), of mset a b] .
  then show ?thesis using assms(4) by simp
qed

lemma funde_mset:
  assumes "funde rotas demandas cap (procura_rotas rotas a b) = Inr (rotas', demandas')"
  shows "mset (concat rotas') = mset (concat rotas)"
proof -
  obtain idx_i idx_j where p: "procura_rotas rotas a b = (idx_i, idx_j)"
    by (cases "procura_rotas rotas a b")
  note l = procura_rotas_limite [OF p]
  show ?thesis
  proof (cases "rotas' = rotas")
    case True
    then show ?thesis by simp
  next
    case False
    with assms p obtain x y where xy: "idx_i = Some x" "idx_j = Some y" "x \<noteq> y"
      and r: "rotas' = (rotas[x := rotas ! x @ rotas ! y])[y := []]"
      by (auto simp: funde_def split: option.splits if_splits)
    from l xy have "x < length rotas" "y < length rotas" by auto
    then show ?thesis unfolding r using xy(3) by (intro mset_concat_update2) auto
  qed
qed

lemma cw_laco_mset:
  "cw_laco sorteio servicos cap k (rotas, demandas, disp, g) = Inr (rotas', demandas', g')
   \<Longrightarrow> mset (concat rotas') = mset (concat rotas)"
proof (induction sorteio servicos cap k "(rotas, demandas, disp, g)"
       arbitrary: rotas demandas disp g rule: cw_laco.induct)
  case (1 sorteio servicos cap k rotas demandas disp g)
  show ?case
  proof (cases "disp = []")
    case True
    with "1.prems" show ?thesis by (simp add: cw_laco.simps)
  next
    case False
    note eq = "1.prems" [unfolded cw_laco.simps [of sorteio servicos cap k rotas demandas disp g]]
    from eq False obtain sav g1 where c: "random_choice sorteio g (fatia_ate disp k) = Inr (sav, g1)"
      by (auto split: sum.splits)
    obtain s i j where sav: "sav = (s, i, j)" by (cases sav)
    from eq False c sav have ij: "i < length servicos \<and> j < length servicos"
      by (auto split: if_splits)
    with eq False c sav obtain r1 d1 where
      f: "funde rotas demandas cap
            (procura_rotas rotas (id_servico (servicos ! i)) (id_servico (servicos ! j)))
          = Inr (r1, d1)"
      and rec: "cw_laco sorteio servicos cap k (r1, d1, remove1 sav disp, g1) = Inr (rotas', demandas', g')"
      by (auto split: sum.splits)
    have "mset (concat rotas') = mset (concat r1)"
      using "1.hyps" [OF False c refl sav [symmetric] refl ij f refl rec] .
    with funde_mset [OF f] show ?thesis by simp
  qed
qed

lemma poda_rotas_fst: "fst (poda_rotas rotas demandas) = filter (\<lambda>r. r \<noteq> []) rotas"
  by (simp add: poda_rotas_def Let_def)

lemma clarke_wright_grasp_mset:
  assumes "clarke_wright_grasp sorteio servicos dep M cap k g = Inr (rotas, demandas, g')"
  shows "mset (concat rotas) = mset servicos"
proof -
  from assms obtain r1 d1 where
    l: "cw_laco sorteio servicos cap k
          (map (\<lambda>s. [s]) servicos, map demanda servicos, calcular_savings servicos dep M, g)
        = Inr (r1, d1, g')"
    and r: "rotas = fst (poda_rotas r1 d1)"
    by (auto simp: clarke_wright_grasp_def construir_rotas_iniciais_eq Let_def
        split: sum.splits prod.splits if_splits)
  from cw_laco_mset [OF l] have "mset (concat r1) = mset servicos"
    by (simp add: concat_singletons)
  then show ?thesis by (simp add: r poda_rotas_fst concat_filter_vazias)
qed

lemma relocate_laco_mset:
  "relocate_laco cap M dep (rotas, demandas) = Inr (rotas', demandas')
   \<Longrightarrow> mset (concat rotas') = mset (concat rotas)"
proof (induction cap M dep "(rotas, demandas)" arbitrary: rotas demandas rule: relocate_laco.induct)
  case (1 cap M dep rotas demandas)
  show ?case
  proof (cases "relocate_varredura rotas demandas cap M dep")
    case Nada
    with "1.prems" show ?thesis by (simp add: relocate_laco.simps)
  next
    case (Achou p)
    obtain r1 d1 where p: "p = (r1, d1)" by (cases p)
    from "1.prems" Achou p have "relocate_laco cap M dep (r1, d1) = Inr (rotas', demandas')"
      by (simp add: relocate_laco.simps)
    from "1.hyps" [OF Achou [unfolded p] refl this]
    have "mset (concat rotas') = mset (concat r1)" .
    with relocate_varredura_Achou [OF Achou [unfolded p]] show ?thesis by simp
  next
    case (Falha e)
    with "1.prems" show ?thesis by (simp add: relocate_laco.simps)
  qed
qed

lemma relocate_mset:
  assumes "relocate rotas demandas cap M dep = Inr (rotas', demandas')"
  shows "mset (concat rotas') = mset (concat rotas)"
proof -
  from assms obtain r1 d1 where l: "relocate_laco cap M dep (rotas, demandas) = Inr (r1, d1)"
    and r: "rotas' = fst (poda_rotas r1 d1)"
    by (auto simp: relocate_def split: sum.splits)
  from relocate_laco_mset [OF l] show ?thesis
    by (simp add: r poda_rotas_fst concat_filter_vazias)
qed

lemma two_opt_mset: "mset (two_opt r M dep) = mset r"
  using two_opt_conserva [of r M dep True] by (simp add: conserva_def)

lemma two_opt_update_mset:
  "mset (concat (rs[i := two_opt (rs ! i) M dep])) = mset (concat rs)"
proof (cases "i < length rs")
  case True
  then show ?thesis by (intro mset_concat_update) (simp_all add: two_opt_mset)
next
  case False
  then show ?thesis by (simp add: list_update_beyond)
qed

lemma vnd_mset:
  assumes "vnd rotas demandas cap M dep = Inr (rotas', demandas')"
  shows "mset (concat rotas') = mset (concat rotas)"
proof -
  from assms obtain r1 d1 where l: "relocate rotas demandas cap M dep = Inr (r1, d1)"
    and r: "rotas' = foldl (\<lambda>rs i. rs[i := two_opt (rs ! i) M dep]) r1 [0..<length r1]"
    by (auto simp: vnd_def split: sum.splits)
  have "mset (concat rotas') = mset (concat r1)"
    unfolding r
    by (rule foldl_invariante [where P = "\<lambda>rs. mset (concat rs) = mset (concat r1)"])
      (simp_all add: two_opt_update_mset)
  with relocate_mset [OF l] show ?thesis by simp
qed

lemma cobertura_mset:
  "mset (concat rotas') = mset (concat rotas) \<Longrightarrow> cobertura servicos rotas
   \<Longrightarrow> cobertura servicos rotas'"
  by (metis cobertura_def mset_map)

lemma validacao_cobertura:
  assumes "set (map id_servico (concat rotas)) = set (map id_servico servicos)"
    and "length (map id_servico (concat rotas)) = card (set (map id_servico (concat rotas)))"
  shows "cobertura servicos rotas"
proof -
  have "distinct (map id_servico (concat rotas))"
    using assms(2) by (simp add: card_distinct)
  then have "mset_set (set (map id_servico (concat rotas))) = mset (map id_servico (concat rotas))"
    by (rule mset_set_set)
  then show ?thesis unfolding cobertura_def using assms(1) by simp
qed

lemma segment_relocate_cobertura:
  assumes "segment_relocate rotas demandas cap M dep obrig = Inr (rotas', demandas')"
  shows "cobertura obrig rotas'"
proof (cases "segment_relocate_laco cap M dep (rotas, demandas)")
  case (Inl e)
  with assms show ?thesis by (simp add: segment_relocate_def)
next
  case (Inr p)
  obtain r1 d1 where p: "p = (r1, d1)" by (cases p)
  let ?ids = "map id_servico (concat r1)"
  let ?c = "set ?ids \<noteq> set (map id_servico obrig) \<or> length ?ids \<noteq> card (set ?ids)"
  have e: "segment_relocate rotas demandas cap M dep obrig = (if ?c then Inl Excecao else Inr (r1, d1))"
    unfolding segment_relocate_def Inr p by (simp only: Let_def sum.case prod.case)
  show ?thesis
  proof (cases ?c)
    case True
    with assms e show ?thesis by simp
  next
    case False
    with assms e have "rotas' = r1" by simp
    with False show ?thesis by (intro validacao_cobertura) simp_all
  qed
qed

lemma solucao_valida_cobertura: "solucao_valida obrig rotas \<Longrightarrow> cobertura obrig rotas"
  by (intro validacao_cobertura) (auto simp: solucao_valida_def Let_def)

lemma tentativa_pipeline_casos:
  assumes "tentativa_pipeline semente sorteio servicos dep M cap obrig k t c (m, g) = Inr st'"
  shows "(\<exists>g'. st' = (m, g'))
         \<or> (\<exists>rf df g'. solucao_valida obrig rf
               \<and> st' = (atualiza_melhor (custo_solucao M dep rf) (length rf) rf df c m, g'))"
proof (cases "clarke_wright_grasp sorteio servicos dep M cap k (semente (12345 + int t))")
  case (Inl e)
  with assms show ?thesis by (simp add: tentativa_pipeline_def)
next
  case (Inr p1)
  obtain r d g' where p1: "p1 = (r, d, g')" by (cases p1)
  show ?thesis
  proof (cases "vnd r d cap M dep")
    case (Inl e)
    with assms Inr p1 show ?thesis by (simp add: tentativa_pipeline_def)
  next
    case Inr2: (Inr p2)
    obtain ro dd where p2: "p2 = (ro, dd)" by (cases p2)
    show ?thesis
    proof (cases "segment_relocate ro dd cap M dep obrig")
      case (Inl e)
      with assms Inr p1 Inr2 p2 show ?thesis by (simp add: tentativa_pipeline_def)
    next
      case Inr3: (Inr p3)
      obtain rf df where p3: "p3 = (rf, df)" by (cases p3)
      from assms Inr p1 Inr2 p2 Inr3 p3
      have "st' = (if \<not> solucao_valida obrig rf then (m, g')
                   else (atualiza_melhor (custo_solucao M dep rf) (length rf) rf df c m, g'))"
        by (simp add: tentativa_pipeline_def Let_def split: if_splits)
      then show ?thesis by (cases "solucao_valida obrig rf") auto
    qed
  qed
qed

lemma tentativa_pipeline_cobre:
  assumes "tentativa_pipeline semente sorteio servicos dep M cap obrig k t c st = Inr st'"
    and "incumbente_cobre obrig st"
  shows "incumbente_cobre obrig st'"
proof -
  obtain m g where st: "st = (m, g)" by (cases st)
  from tentativa_pipeline_casos [OF assms(1) [unfolded st]]
  consider g' where "st' = (m, g')"
    | rf df g' where "solucao_valida obrig rf"
        "st' = (atualiza_melhor (custo_solucao M dep rf) (length rf) rf df c m, g')"
    by blast
  then show ?thesis
  proof cases
    case 1
    with assms(2) st show ?thesis by (simp add: incumbente_cobre_def)
  next
    case 2
    with assms(2) st solucao_valida_cobertura [OF 2(1)] show ?thesis
      by (simp add: incumbente_cobre_def atualiza_melhor_def split: option.splits)
  qed
qed

lemma tentativas_cobre:
  "tentativas semente sorteio relogio servicos dep M cap obrig k ts st = Inr st'
   \<Longrightarrow> incumbente_cobre obrig st \<Longrightarrow> incumbente_cobre obrig st'"
proof (induction ts arbitrary: st)
  case Nil
  then show ?case by simp
next
  case (Cons t ts)
  from Cons.prems(1) obtain st1 where
    1: "tentativa_pipeline semente sorteio servicos dep M cap obrig k t (relogio (t + 1)) st = Inr st1"
    and 2: "tentativas semente sorteio relogio servicos dep M cap obrig k ts st1 = Inr st'"
    by (auto split: sum.splits)
  from tentativa_pipeline_cobre [OF 1 Cons.prems(2)] Cons.IH [OF 2] show ?case by simp
qed

lemma multi_start_pipeline_cobertura:
  assumes "multi_start_pipeline semente sorteio relogio ciclos servicos dep M cap obrig k T g0
           = Inr (Some (rotas, demandas), c1, c2, g)"
  shows "cobertura obrig rotas"
proof -
  from assms obtain melhor where
    t: "tentativas semente sorteio relogio servicos dep M cap obrig k [0..<T] (None, g0) = Inr (melhor, g)"
    and m: "map_option (\<lambda>m. (melhor_rotas m, melhor_demandas m)) melhor = Some (rotas, demandas)"
    by (auto simp: multi_start_pipeline_def Let_def split: sum.splits)
  have "incumbente_cobre obrig (melhor, g)"
    by (rule tentativas_cobre [OF t]) (simp add: incumbente_cobre_def)
  with m show ?thesis by (auto simp: incumbente_cobre_def)
qed

text \<open>
  C4. Coverage holds for every solution the engine generates. After construction, for a
  catalog of pairwise different ids: the routes returned by \<^verbatim>\<open>clarke_wright_grasp\<close> cover the
  catalog. After every local-search operator: \<^verbatim>\<open>relocate\<close>, \<^verbatim>\<open>two_opt\<close> on any route, and \<^verbatim>\<open>vnd\<close>
  return routes that cover the catalog when the routes they were given do, and the routes
  returned by \<^verbatim>\<open>segment_relocate\<close> cover the catalog it was given. After the full pipeline:
  the best solution returned by \<^verbatim>\<open>multi_start_pipeline\<close> covers the catalog.
\<close>

theorem cobertura_em_todas_as_etapas:
  "(distinct (map id_servico servicos) \<longrightarrow>
      clarke_wright_grasp sorteio servicos dep M cap k g = Inr (rotas1, demandas1, g1) \<longrightarrow>
      cobertura servicos rotas1)
   \<and> (cobertura servicos rotas \<longrightarrow>
      relocate rotas demandas cap M dep = Inr (rotas2, demandas2) \<longrightarrow>
      cobertura servicos rotas2)
   \<and> (cobertura servicos rotas \<longrightarrow>
      cobertura servicos (rotas[i := two_opt (rotas ! i) M dep]))
   \<and> (cobertura servicos rotas \<longrightarrow>
      vnd rotas demandas cap M dep = Inr (rotas3, demandas3) \<longrightarrow>
      cobertura servicos rotas3)
   \<and> (segment_relocate rotas demandas cap M dep servicos = Inr (rotas4, demandas4) \<longrightarrow>
      cobertura servicos rotas4)
   \<and> (multi_start_pipeline semente sorteio relogio ciclos servicos' dep M cap servicos k T g0
        = Inr (Some (rotas5, demandas5), c1, c2, g5) \<longrightarrow>
      cobertura servicos rotas5)"
proof (intro conjI impI)
  assume d: "distinct (map id_servico servicos)"
    and c: "clarke_wright_grasp sorteio servicos dep M cap k g = Inr (rotas1, demandas1, g1)"
  from clarke_wright_grasp_mset [OF c]
  have "mset (map id_servico (concat rotas1)) = mset (map id_servico servicos)" by simp
  also have "\<dots> = mset_set (set (map id_servico servicos))"
    using d by (simp only: mset_set_set)
  finally show "cobertura servicos rotas1" by (simp add: cobertura_def)
next
  assume "cobertura servicos rotas" "relocate rotas demandas cap M dep = Inr (rotas2, demandas2)"
  then show "cobertura servicos rotas2" using relocate_mset cobertura_mset by blast
next
  assume "cobertura servicos rotas"
  then show "cobertura servicos (rotas[i := two_opt (rotas ! i) M dep])"
    using two_opt_update_mset cobertura_mset by blast
next
  assume "cobertura servicos rotas" "vnd rotas demandas cap M dep = Inr (rotas3, demandas3)"
  then show "cobertura servicos rotas3" using vnd_mset cobertura_mset by blast
next
  assume "segment_relocate rotas demandas cap M dep servicos = Inr (rotas4, demandas4)"
  then show "cobertura servicos rotas4" by (rule segment_relocate_cobertura)
next
  assume "multi_start_pipeline semente sorteio relogio ciclos servicos' dep M cap servicos k T g0
        = Inr (Some (rotas5, demandas5), c1, c2, g5)"
  then show "cobertura servicos rotas5" by (rule multi_start_pipeline_cobertura)
qed

lemma pipeline_inst3:
  "multi_start_pipeline semente_fixa sorteio_fixo relogio_fixo (\<lambda>x. x) inst3 1 caminho4 8 inst3 1 1 0
   = Inr (Some ([[servico_vertice 1 2 3 0], [servico_vertice 3 4 6 0, servico_vertice 2 3 4 0]],
                [3, 4]), 2, 1, 12348)"
  unfolding multi_start_pipeline_def um_intervalo
  by (simp add: tentativa_inst3 Let_def relogio_fixo_def sorteio_fixo_def semente_fixa_def
      del: One_nat_def)

lemma cobertura_inst3:
  "cobertura inst3 [[servico_vertice 1 2 3 0, servico_vertice 2 3 4 0], [servico_vertice 3 4 6 0]]"
  by (simp add: cobertura_def inst3_def servico_vertice_def mset_set_set [symmetric])

theorem cobertura_em_todas_as_etapas_witness:
  "distinct (map id_servico inst3)
   \<and> clarke_wright_grasp sorteio_fixo inst3 1 caminho4 8 1 0
       = Inr ([[servico_vertice 1 2 3 0, servico_vertice 2 3 4 0], [servico_vertice 3 4 6 0]],
              [7, 0], 3)
   \<and> cobertura inst3 [[servico_vertice 1 2 3 0, servico_vertice 2 3 4 0], [servico_vertice 3 4 6 0]]
   \<and> relocate [[servico_vertice 1 2 3 0, servico_vertice 2 3 4 0], [servico_vertice 3 4 6 0]]
         [7, 0] 8 caminho4 1
       = Inr ([[servico_vertice 1 2 3 0], [servico_vertice 3 4 6 0, servico_vertice 2 3 4 0]], [3, 4])
   \<and> vnd [[servico_vertice 1 2 3 0, servico_vertice 2 3 4 0], [servico_vertice 3 4 6 0]]
         [7, 0] 8 caminho4 1
       = Inr ([[servico_vertice 1 2 3 0], [servico_vertice 3 4 6 0, servico_vertice 2 3 4 0]], [3, 4])
   \<and> segment_relocate [[servico_vertice 1 2 3 0], [servico_vertice 3 4 6 0, servico_vertice 2 3 4 0]]
         [3, 4] 8 caminho4 1 inst3
       = Inr ([[servico_vertice 1 2 3 0], [servico_vertice 3 4 6 0, servico_vertice 2 3 4 0]], [3, 4])
   \<and> multi_start_pipeline semente_fixa sorteio_fixo relogio_fixo (\<lambda>x. x) inst3 1 caminho4 8 inst3
         1 1 0
       = Inr (Some ([[servico_vertice 1 2 3 0], [servico_vertice 3 4 6 0, servico_vertice 2 3 4 0]],
                    [3, 4]), 2, 1, 12348)
   \<and> cobertura inst3 [[servico_vertice 1 2 3 0], [servico_vertice 3 4 6 0, servico_vertice 2 3 4 0]]
   \<and> cobertura inst3
        ([[servico_vertice 1 2 3 0, servico_vertice 2 3 4 0], [servico_vertice 3 4 6 0]]
           [0 := two_opt ([[servico_vertice 1 2 3 0, servico_vertice 2 3 4 0],
                           [servico_vertice 3 4 6 0]] ! 0) caminho4 1])"
proof -
  let ?R1 = "[[servico_vertice 1 2 3 0, servico_vertice 2 3 4 0], [servico_vertice 3 4 6 0]]"
  let ?R2 = "[[servico_vertice 1 2 3 0], [servico_vertice 3 4 6 0, servico_vertice 2 3 4 0]]"
  have d: "distinct (map id_servico inst3)" by (simp add: inst3_def servico_vertice_def)
  have c: "clarke_wright_grasp sorteio_fixo inst3 1 caminho4 8 1 0 = Inr (?R1, [7, 0], 3)"
    by (simp add: construcao_inst3 sorteio_fixo_def del: One_nat_def)
  note th = cobertura_em_todas_as_etapas [of inst3 sorteio_fixo 1 caminho4 8 1 0 ?R1 "[7, 0]" 3
      ?R1 "[7, 0]" ?R2 "[3, 4]" 0 ?R2 "[3, 4]" ?R2 "[3, 4]" semente_fixa relogio_fixo "\<lambda>x. x"
      inst3 1 0 ?R2 "[3, 4]" 2 1 12348]
  from th d c have c1: "cobertura inst3 ?R1" by blast
  show ?thesis
    using th d c c1 relocate_inst3 vnd_inst3 segment_relocate_inst3 pipeline_inst3 by blast
qed

section \<open>Determinism of the multi-start driver: the claim\<close>

lemma atualiza_melhor_sem_relogio:
  "sem_relogio m = sem_relogio m' \<Longrightarrow>
   sem_relogio (atualiza_melhor c n r d k m) = sem_relogio (atualiza_melhor c n r d k' m')"
  by (cases m; cases m') (auto simp: sem_relogio_def atualiza_melhor_def melhora_def)

lemma tentativa_pipeline_sem_relogio:
  assumes "sem_relogio m = sem_relogio m'"
  shows "map_sum id (\<lambda>(a, b). (sem_relogio a, b))
           (tentativa_pipeline semente sorteio servicos dep M cap obrig k t c (m, g))
         = map_sum id (\<lambda>(a, b). (sem_relogio a, b))
           (tentativa_pipeline semente sorteio servicos dep M cap obrig k t c' (m', g'))"
proof (cases "clarke_wright_grasp sorteio servicos dep M cap k (semente (12345 + int t))")
  case (Inl e)
  then show ?thesis by (simp add: tentativa_pipeline_def)
next
  case (Inr p1)
  obtain r d g1 where p1: "p1 = (r, d, g1)" by (cases p1)
  show ?thesis
  proof (cases "vnd r d cap M dep")
    case (Inl e)
    with Inr p1 show ?thesis by (simp add: tentativa_pipeline_def)
  next
    case Inr2: (Inr p2)
    obtain ro dd where p2: "p2 = (ro, dd)" by (cases p2)
    show ?thesis
    proof (cases "segment_relocate ro dd cap M dep obrig")
      case (Inl e)
      with Inr p1 Inr2 p2 show ?thesis by (simp add: tentativa_pipeline_def)
    next
      case Inr3: (Inr p3)
      obtain rf df where p3: "p3 = (rf, df)" by (cases p3)
      from Inr p1 Inr2 p2 Inr3 p3 assms
        atualiza_melhor_sem_relogio [OF assms, of "custo_solucao M dep rf" "length rf" rf df c c']
      show ?thesis
        by (simp add: tentativa_pipeline_def Let_def)
    qed
  qed
qed

lemma tentativas_sem_relogio:
  "sem_relogio m = sem_relogio m' \<Longrightarrow>
   map_sum id (\<lambda>st. sem_relogio (fst st))
     (tentativas semente sorteio relogio servicos dep M cap obrig k ts (m, g))
   = map_sum id (\<lambda>st. sem_relogio (fst st))
     (tentativas semente sorteio relogio' servicos dep M cap obrig k ts (m', g'))"
proof (induction ts arbitrary: m m' g g')
  case Nil
  then show ?case by simp
next
  case (Cons t ts)
  let ?a = "tentativa_pipeline semente sorteio servicos dep M cap obrig k t (relogio (t + 1)) (m, g)"
  let ?b = "tentativa_pipeline semente sorteio servicos dep M cap obrig k t (relogio' (t + 1)) (m', g')"
  have e: "map_sum id (\<lambda>(a, b). (sem_relogio a, b)) ?a = map_sum id (\<lambda>(a, b). (sem_relogio a, b)) ?b"
    by (rule tentativa_pipeline_sem_relogio [OF Cons.prems])
  show ?case
  proof (cases ?a)
    case (Inl x)
    with e have "?b = Inl x" by (cases ?b) auto
    with Inl show ?thesis by simp
  next
    case (Inr st)
    obtain m1 g1 where st: "st = (m1, g1)" by (cases st)
    from e Inr st obtain m1' where b: "?b = Inr (m1', g1)" and s: "sem_relogio m1 = sem_relogio m1'"
      by (cases ?b) auto
    from Cons.IH [OF s, of g1 g1] Inr st b show ?thesis by simp
  qed
qed

lemma melhor_encontrado_multi_start:
  "melhor_encontrado M dep
     (multi_start_pipeline semente sorteio relogio ciclos servicos dep M cap obrig k T g0)
   = map_sum id
       (\<lambda>st. map_option (\<lambda>(c, n, rotas, demandas). (custo_solucao M dep rotas, length rotas, rotas, demandas))
               (sem_relogio (fst st)))
       (tentativas semente sorteio relogio servicos dep M cap obrig k [0..<T] (None, g0))"
proof (cases "tentativas semente sorteio relogio servicos dep M cap obrig k [0..<T] (None, g0)")
  case (Inl e)
  then show ?thesis by (simp add: melhor_encontrado_def multi_start_pipeline_def)
next
  case (Inr st)
  obtain melhor g where st: "st = (melhor, g)" by (cases st)
  with Inr show ?thesis
    by (cases melhor) (simp_all add: melhor_encontrado_def multi_start_pipeline_def Let_def sem_relogio_def)
qed

text \<open>
  A run on a generator of its own. Two runs of \<^verbatim>\<open>multi_start_pipeline\<close> on the same
  services, depot, distance matrix, capacity, pool size and number of trials, with the same
  draw, find the same best solution, with the same total cost and number of routes (or both
  find none, or both abort with the same exception), whatever the state of the generator
  before each run and whatever the clock reads: every trial starts by seeding the generator
  with 12345 plus its index. The draw is the same in both runs, so this says nothing about
  runs between whose draws other threads use the generator.
\<close>

lemma multi_start_isolado:
  "melhor_encontrado M dep
     (multi_start_pipeline semente sorteio relogio ciclos servicos dep M cap obrig k T g0)
   = melhor_encontrado M dep
     (multi_start_pipeline semente sorteio relogio' ciclos' servicos dep M cap obrig k T g0')"
proof -
  have "map_sum id (\<lambda>st. sem_relogio (fst st))
          (tentativas semente sorteio relogio servicos dep M cap obrig k [0..<T] (None, g0))
        = map_sum id (\<lambda>st. sem_relogio (fst st))
          (tentativas semente sorteio relogio' servicos dep M cap obrig k [0..<T] (None, g0'))"
    by (rule tentativas_sem_relogio) simp
  then have "map_sum id
       (\<lambda>st. map_option (\<lambda>(c, n, rotas, demandas). (custo_solucao M dep rotas, length rotas, rotas, demandas))
               (sem_relogio (fst st)))
       (tentativas semente sorteio relogio servicos dep M cap obrig k [0..<T] (None, g0))
     = map_sum id
       (\<lambda>st. map_option (\<lambda>(c, n, rotas, demandas). (custo_solucao M dep rotas, length rotas, rotas, demandas))
               (sem_relogio (fst st)))
       (tentativas semente sorteio relogio' servicos dep M cap obrig k [0..<T] (None, g0'))"
    by (cases "tentativas semente sorteio relogio servicos dep M cap obrig k [0..<T] (None, g0)";
        cases "tentativas semente sorteio relogio' servicos dep M cap obrig k [0..<T] (None, g0')")
      simp_all
  then show ?thesis by (simp only: melhor_encontrado_multi_start)
qed

text \<open>
  C7. The seed base, the number of trials and the inputs do not fix the best cost of a run
  of \<^verbatim>\<open>multi_start_pipeline\<close>. Each trial seeds the generator with 12345 plus its index, but
  the generator is the one of the process, shared with the runs of the other threads of the
  batch driver. On the instance of four services, with the pool size 10 and the 5 trials
  the batch driver uses, the same seeding, the same draw and the same clock, the run alone
  finds a best solution of total cost 20, and the run with one \<^verbatim>\<open>random.choice\<close> of another
  thread before each of its own draws finds a best solution of total cost 16; both have one
  route.
\<close>

theorem multi_start_gerador_partilhado:
  "melhor_encontrado grafo5 1
     (multi_start_pipeline semente_curta sorteio_fixo relogio_fixo (\<lambda>x. x)
        inst4 1 grafo5 8 inst4 10 5 0)
   = Inr (Some (20, 1,
        [[servico_vertice 3 4 3 0, servico_vertice 1 2 2 0, servico_vertice 2 3 1 0,
          servico_vertice 4 5 2 0]], [0]))
   \<and> melhor_encontrado grafo5 1
     (multi_start_pipeline semente_curta
        (sorteio_partilhado (sorteio_alheio sorteio_fixo 2) sorteio_fixo) relogio_fixo (\<lambda>x. x)
        inst4 1 grafo5 8 inst4 10 5 0)
   = Inr (Some (16, 1,
        [[servico_vertice 1 2 2 0, servico_vertice 3 4 3 0, servico_vertice 4 5 2 0,
          servico_vertice 2 3 1 0]], [8]))"
  by code_simp

end
